theory Spec2Isabelle
  imports Main "HOL-Library.Word"
begin

unbundle bit_operations_syntax

section \<open>Data model of dwm.c\<close>

text \<open>
  The model follows \<^verbatim>\<open>src/dwm.c\<close>. Conventions:
  \<^item> A \<^verbatim>\<open>Client *\<close> is an address (\<open>cref\<close>), a \<^verbatim>\<open>Monitor *\<close> an address (\<open>mref\<close>);
    the two heaps \<open>cl\<close> and \<open>mn\<close> of the state map addresses to records. A pointer the code
    tests against \<^verbatim>\<open>NULL\<close> is a \<open>cref option\<close>.
  \<^item> The intrusive lists \<^verbatim>\<open>m->clients\<close> (linked by \<^verbatim>\<open>next\<close>), \<^verbatim>\<open>m->stack\<close> (linked by
    \<^verbatim>\<open>snext\<close>) and \<^verbatim>\<open>plug->mons\<close> are the lists of the addresses of their nodes.
  \<^item> \<^verbatim>\<open>int\<close> fields are \<open>int\<close> (signed overflow is undefined in C and is not modelled);
    \<^verbatim>\<open>unsigned int\<close> values are \<open>32 word\<close>, so the unsigned arithmetic of \<^verbatim>\<open>tile\<close> wraps.
  \<^item> \<^verbatim>\<open>int\<close> fields used as truth values are \<open>bool\<close>.
  \<^item> The geometry fields \<^verbatim>\<open>x, y, w, h\<close> of a client are called \<open>cx, cy, cw, ch\<close>.
  \<^item> \<^verbatim>\<open>float\<close> values have the abstract type \<open>'f\<close>; the float operations of the code are the
    fields \<open>f_pos\<close>, \<open>f_lt_quot\<close>, \<open>f_mul_round\<close>, \<open>f_mul_uint\<close>, \<open>f_quot\<close>, \<open>f_zero\<close> of the
    configuration, so nothing is assumed about rounding.
  \<^item> \<^verbatim>\<open>config.h\<close> and \<^verbatim>\<open>util.h\<close> are not among the sources: the values of \<^verbatim>\<open>config.h\<close> are the
    fields of the record \<open>Config\<close>; \<^verbatim>\<open>MAX\<close> and \<^verbatim>\<open>MIN\<close> are \<open>max\<close> and \<open>min\<close>.
  \<^item> Requests sent to the X server that carry geometry, stacking or window state are
    appended to the trace \<open>xout\<close>; requests that only draw, grab, colour a border or move
    the input focus are left out. Replies of the X server are read from the fields
    \<open>xhints\<close>, \<open>xclass\<close> and \<open>ptr\<close> of the state.
\<close>

type_synonym cref = nat
type_synonym mref = nat
type_synonym window = nat
type_synonym u32 = "32 word"

datatype arranger = Tile | Monocle

record Layout =
  symbol :: string
  lt_arrange :: "arranger option"

record Rule =
  r_class :: "string option"
  r_instance :: "string option"
  r_title :: "string option"
  r_tags :: u32
  r_isfloating :: bool
  r_monitor :: int

record 'f Client =
  name :: string
  mina :: 'f
  maxa :: 'f
  cx :: int
  cy :: int
  cw :: int
  ch :: int
  oldx :: int
  oldy :: int
  oldw :: int
  oldh :: int
  maximx :: int
  maximy :: int
  maximw :: int
  maximh :: int
  basew :: int
  baseh :: int
  incw :: int
  inch :: int
  maxw :: int
  maxh :: int
  minw :: int
  minh :: int
  hintsvalid :: bool
  bw :: int
  oldbw :: int
  tags :: u32
  isfixed :: bool
  isfloating :: bool
  isurgent :: bool
  neverfocus :: bool
  oldstate :: bool
  isfullscreen :: bool
  isminimized :: bool
  mon :: mref
  win :: window

record 'f Monitor =
  mfact :: 'f
  nmaster :: int
  num :: int
  mx :: int
  my :: int
  mw :: int
  mh :: int
  wx :: int
  wy :: int
  ww :: int
  wh :: int
  seltags :: nat
  sellt :: nat
  tagset :: "nat \<Rightarrow> u32"
  showbar :: bool
  topbar :: bool
  clients :: "cref list"
  sel :: "cref option"
  stack :: "cref list"
  barwin :: window
  lt :: "nat \<Rightarrow> Layout"

text \<open>The reply of \<^verbatim>\<open>XGetWMNormalHints\<close>: the fields of \<^verbatim>\<open>XSizeHints\<close> the code reads.\<close>

record XSizeHints =
  flags :: "64 word"
  base_width :: int
  base_height :: int
  min_width :: int
  min_height :: int
  max_width :: int
  max_height :: int
  width_inc :: int
  height_inc :: int
  min_aspect_x :: int
  min_aspect_y :: int
  max_aspect_x :: int
  max_aspect_y :: int

text \<open>The values of \<^verbatim>\<open>config.h\<close> the modelled functions read, and the float operations.\<close>

record 'f Config =
  resizehints :: bool
  ntags :: nat
  rules :: "Rule list"
  layout0 :: Layout
  layouts_rest :: "Layout list"
  cfg_mfact :: 'f
  cfg_nmaster :: int
  cfg_showbar :: bool
  cfg_topbar :: bool
  f_pos :: "'f \<Rightarrow> bool"
  f_lt_quot :: "'f \<Rightarrow> int \<Rightarrow> int \<Rightarrow> bool"
  f_mul_round :: "int \<Rightarrow> 'f \<Rightarrow> int"
  f_mul_uint :: "int \<Rightarrow> 'f \<Rightarrow> u32"
  f_quot :: "int \<Rightarrow> int \<Rightarrow> 'f"
  f_zero :: 'f

text \<open>Requests to the X server, in the order the code sends them.\<close>

datatype xreq =
    SendConfigureNotify window int int int int int
  | XConfigureWindow window int int int int int
  | XConfigureWindowRaw window "64 word" int int int int int
  | XMoveResizeWindow window int int int int
  | XMoveWindow window int int
  | XRaiseWindow window
  | XRestackBelow window window
  | SetWMState window int
  | SetNetWMFullscreen window bool

record 'f State =
  cl :: "cref \<Rightarrow> 'f Client"
  mn :: "mref \<Rightarrow> 'f Monitor"
  mons :: "mref list"
  selmon :: mref
  sw :: int
  sh :: int
  bh :: int
  fonth :: int
  root :: window
  xout :: "xreq list"
  xhints :: "window \<Rightarrow> XSizeHints option"
  xclass :: "window \<Rightarrow> string option \<times> string option"
  ptr :: "(int \<times> int) option"

datatype fault = NullDeref

section \<open>Macros and helpers\<close>

definition WIDTH :: "'f Client \<Rightarrow> int" where
  "WIDTH k = cw k + 2 * bw k"

definition HEIGHT :: "'f Client \<Rightarrow> int" where
  "HEIGHT k = ch k + 2 * bw k"

definition TAGMASK :: "'f Config \<Rightarrow> u32" where
  "TAGMASK cfg = push_bit (ntags cfg) 1 - 1"

definition ISVISIBLE :: "'f State \<Rightarrow> cref \<Rightarrow> bool" where
  "ISVISIBLE st c =
     (let k = cl st c; m = mn st (mon k) in tags k AND tagset m (seltags m) \<noteq> 0)"

text \<open>C's remainder truncates towards zero.\<close>

definition c_rem :: "int \<Rightarrow> int \<Rightarrow> int" where
  "c_rem a b = a - b * (sgn a * sgn b * (\<bar>a\<bar> div \<bar>b\<bar>))"

definition upd_client :: "'f State \<Rightarrow> cref \<Rightarrow> ('f Client \<Rightarrow> 'f Client) \<Rightarrow> 'f State" where
  "upd_client st c f = st\<lparr>cl := (cl st)(c := f (cl st c))\<rparr>"

definition upd_mon :: "'f State \<Rightarrow> mref \<Rightarrow> ('f Monitor \<Rightarrow> 'f Monitor) \<Rightarrow> 'f State" where
  "upd_mon st m f = st\<lparr>mn := (mn st)(m := f (mn st m))\<rparr>"

definition xsend :: "xreq \<Rightarrow> 'f State \<Rightarrow> 'f State" where
  "xsend r st = st\<lparr>xout := xout st @ [r]\<rparr>"

section \<open>Size hints\<close>

definition PSize :: "64 word" where "PSize = 8"
definition PMinSize :: "64 word" where "PMinSize = 16"
definition PMaxSize :: "64 word" where "PMaxSize = 32"
definition PResizeInc :: "64 word" where "PResizeInc = 64"
definition PAspect :: "64 word" where "PAspect = 128"
definition PBaseSize :: "64 word" where "PBaseSize = 256"

definition no_hints :: XSizeHints where
  "no_hints = \<lparr>flags = PSize, base_width = 0, base_height = 0, min_width = 0,
     min_height = 0, max_width = 0, max_height = 0, width_inc = 0, height_inc = 0,
     min_aspect_x = 0, min_aspect_y = 0, max_aspect_x = 0, max_aspect_y = 0\<rparr>"

text \<open>\<^verbatim>\<open>updatesizehints\<close> (dwm.c 2092-2134). When \<^verbatim>\<open>XGetWMNormalHints\<close> fails the code sets
  \<^verbatim>\<open>size.flags = PSize\<close> and reads no other field.\<close>

definition updatesizehints :: "'f Config \<Rightarrow> 'f State \<Rightarrow> cref \<Rightarrow> 'f State" where
  "updatesizehints cfg st c =
     (let size = (case xhints st (win (cl st c)) of Some s \<Rightarrow> s | None \<Rightarrow> no_hints);
          has = (\<lambda>f. flags size AND f \<noteq> 0);
          (bw0, bh0) = (if has PBaseSize then (base_width size, base_height size)
                        else if has PMinSize then (min_width size, min_height size)
                        else (0, 0));
          (iw, ih) = (if has PResizeInc then (width_inc size, height_inc size) else (0, 0));
          (xw, xh) = (if has PMaxSize then (max_width size, max_height size) else (0, 0));
          (nw, nh) = (if has PMinSize then (min_width size, min_height size)
                      else if has PBaseSize then (base_width size, base_height size)
                      else (0, 0));
          (mi, ma) = (if has PAspect
                      then (f_quot cfg (min_aspect_y size) (min_aspect_x size),
                            f_quot cfg (max_aspect_x size) (max_aspect_y size))
                      else (f_zero cfg, f_zero cfg))
      in upd_client st c (\<lambda>k. k\<lparr>basew := bw0, baseh := bh0, incw := iw, inch := ih,
           maxw := xw, maxh := xh, minw := nw, minh := nh, mina := mi, maxa := ma,
           isfixed := (xw \<noteq> 0 \<and> xh \<noteq> 0 \<and> xw = nw \<and> xh = nh),
           hintsvalid := True\<rparr>))"

text \<open>The ICCCM 4.1.2.3 block of \<^verbatim>\<open>applysizehints\<close> (dwm.c 443-471), on the width and
  height that reach it.\<close>

definition icccm_hints :: "'f Config \<Rightarrow> 'f Client \<Rightarrow> int \<Rightarrow> int \<Rightarrow> int \<times> int" where
  "icccm_hints cfg k w0 h0 =
     (let baseismin = (basew k = minw k \<and> baseh k = minh k);
          (w1, h1) = (if \<not> baseismin then (w0 - basew k, h0 - baseh k) else (w0, h0));
          (w2, h2) = (if f_pos cfg (mina k) \<and> f_pos cfg (maxa k)
                      then (if f_lt_quot cfg (maxa k) w1 h1
                            then (f_mul_round cfg h1 (maxa k), h1)
                            else if f_lt_quot cfg (mina k) h1 w1
                            then (w1, f_mul_round cfg w1 (mina k))
                            else (w1, h1))
                      else (w1, h1));
          (w3, h3) = (if baseismin then (w2 - basew k, h2 - baseh k) else (w2, h2));
          w4 = (if incw k \<noteq> 0 then w3 - c_rem w3 (incw k) else w3);
          h4 = (if inch k \<noteq> 0 then h3 - c_rem h3 (inch k) else h3);
          w5 = max (w4 + basew k) (minw k);
          h5 = max (h4 + baseh k) (minh k);
          w6 = (if maxw k \<noteq> 0 then min w5 (maxw k) else w5);
          h6 = (if maxh k \<noteq> 0 then min h5 (maxh k) else h5)
      in (w6, h6))"

text \<open>The position block of \<^verbatim>\<open>applysizehints\<close> (dwm.c 417-435), on the client \<open>k\<close>, its monitor
  \<open>M\<close> and the width and height already raised to 1.\<close>

definition clamp_position ::
  "'f State \<Rightarrow> 'f Client \<Rightarrow> 'f Monitor \<Rightarrow> bool \<Rightarrow> int \<Rightarrow> int \<Rightarrow> int \<Rightarrow> int \<Rightarrow> int \<times> int" where
  "clamp_position st k M interact x0 y0 w1 h1 =
     (let x1 = (if interact then (if x0 > sw st then sw st - WIDTH k else x0)
                else (if x0 \<ge> wx M + ww M then wx M + ww M - WIDTH k else x0));
          y1 = (if interact then (if y0 > sh st then sh st - HEIGHT k else y0)
                else (if y0 \<ge> wy M + wh M then wy M + wh M - HEIGHT k else y0));
          x2 = (if interact then (if x1 + w1 + 2 * bw k < 0 then 0 else x1)
                else (if x1 + w1 + 2 * bw k \<le> wx M then wx M else x1));
          y2 = (if interact then (if y1 + h1 + 2 * bw k < 0 then 0 else y1)
                else (if y1 + h1 + 2 * bw k \<le> wy M then wy M else y1))
      in (x2, y2))"

text \<open>The test of line 440: the ICCCM block runs.\<close>

definition hints_apply :: "'f Config \<Rightarrow> 'f State \<Rightarrow> cref \<Rightarrow> bool" where
  "hints_apply cfg st c =
     (resizehints cfg \<or> isfloating (cl st c)
        \<or> lt_arrange (lt (mn st (mon (cl st c))) (sellt (mn st (mon (cl st c))))) = None)"

text \<open>\<^verbatim>\<open>applysizehints\<close> (dwm.c 408-474). The out-parameters \<^verbatim>\<open>*x, *y, *w, *h\<close> are returned
  after the \<^verbatim>\<open>changed\<close> flag; the state is returned because \<^verbatim>\<open>updatesizehints\<close> may run.\<close>

definition applysizehints ::
  "'f Config \<Rightarrow> 'f State \<Rightarrow> cref \<Rightarrow> int \<Rightarrow> int \<Rightarrow> int \<Rightarrow> int \<Rightarrow> bool
     \<Rightarrow> (bool \<times> int \<times> int \<times> int \<times> int) \<times> 'f State" where
  "applysizehints cfg st c x0 y0 w0 h0 interact =
     (let k = cl st c;
          w1 = max 1 w0;
          h1 = max 1 h0;
          (x2, y2) = clamp_position st k (mn st (mon k)) interact x0 y0 w1 h1;
          h2 = (if h1 < bh st then bh st else h1);
          w2 = (if w1 < bh st then bh st else w1)
      in if hints_apply cfg st c
         then (let st' = (if \<not> hintsvalid k then updatesizehints cfg st c else st);
                   k' = cl st' c;
                   (w3, h3) = icccm_hints cfg k' w2 h2
               in ((x2 \<noteq> cx k' \<or> y2 \<noteq> cy k' \<or> w3 \<noteq> cw k' \<or> h3 \<noteq> ch k',
                    x2, y2, w3, h3), st'))
         else ((x2 \<noteq> cx k \<or> y2 \<noteq> cy k \<or> w2 \<noteq> cw k \<or> h2 \<noteq> ch k,
                x2, y2, w2, h2), st))"

section \<open>Resizing\<close>

text \<open>\<^verbatim>\<open>configure\<close> (dwm.c 628-645): the synthetic \<^verbatim>\<open>ConfigureNotify\<close> with the stored
  geometry of the client.\<close>

definition configure :: "'f State \<Rightarrow> cref \<Rightarrow> 'f State" where
  "configure st c =
     (let k = cl st c in xsend (SendConfigureNotify (win k) (cx k) (cy k) (cw k) (ch k) (bw k)) st)"

text \<open>\<^verbatim>\<open>resizeclient\<close> (dwm.c 1410-1423).\<close>

definition resizeclient :: "'f State \<Rightarrow> cref \<Rightarrow> int \<Rightarrow> int \<Rightarrow> int \<Rightarrow> int \<Rightarrow> 'f State" where
  "resizeclient st c x0 y0 w0 h0 =
     (let st1 = upd_client st c (\<lambda>k. k\<lparr>oldx := cx k, cx := x0, oldy := cy k, cy := y0,
                                        oldw := cw k, cw := w0, oldh := ch k, ch := h0\<rparr>);
          k1 = cl st1 c;
          st2 = xsend (XConfigureWindow (win k1) x0 y0 w0 h0 (bw k1)) st1
      in configure st2 c)"

text \<open>\<^verbatim>\<open>resize\<close> (dwm.c 1403-1408).\<close>

definition resize ::
  "'f Config \<Rightarrow> 'f State \<Rightarrow> cref \<Rightarrow> int \<Rightarrow> int \<Rightarrow> int \<Rightarrow> int \<Rightarrow> bool \<Rightarrow> 'f State" where
  "resize cfg st c x0 y0 w0 h0 interact =
     (case applysizehints cfg st c x0 y0 w0 h0 interact of
        ((changed, x1, y1, w1, h1), st1) \<Rightarrow>
          if changed then resizeclient st1 c x1 y1 w1 h1 else st1)"

section \<open>Layouts\<close>

text \<open>The loop condition of \<^verbatim>\<open>nexttiled\<close> (dwm.c 1330-1335): the client is skipped.\<close>

definition nottiled :: "'f State \<Rightarrow> cref \<Rightarrow> bool" where
  "nottiled st c = (isfloating (cl st c) \<or> \<not> ISVISIBLE st c)"

text \<open>The counting loop of \<^verbatim>\<open>tile\<close> (dwm.c 1824), along the \<^verbatim>\<open>next\<close> chain.\<close>

fun tile_count :: "'f State \<Rightarrow> cref list \<Rightarrow> nat" where
  "tile_count st [] = 0"
| "tile_count st (c # cs) = (if nottiled st c then tile_count st cs else Suc (tile_count st cs))"

text \<open>The master width of \<^verbatim>\<open>tile\<close> (dwm.c 1828-1831); \<^verbatim>\<open>n > m->nmaster\<close> compares unsigned.\<close>

definition tile_mw :: "'f Config \<Rightarrow> 'f Monitor \<Rightarrow> u32 \<Rightarrow> u32" where
  "tile_mw cfg M n =
     (if n > word_of_int (nmaster M)
      then (if nmaster M \<noteq> 0 then f_mul_uint cfg (ww M) (mfact M) else 0)
      else word_of_int (ww M))"

text \<open>The rectangle \<^verbatim>\<open>tile\<close> hands to \<^verbatim>\<open>resize\<close> for the \<open>i\<close>-th tiled client (dwm.c 1833-1835
  for the master column, 1839-1840 for the stack column). The locals \<^verbatim>\<open>i, n, h, mw, my, ty\<close>
  are unsigned, so the arithmetic they take part in is unsigned and converted back to
  \<^verbatim>\<open>int\<close> when passed.\<close>

definition tile_rect ::
  "'f Monitor \<Rightarrow> 'f Client \<Rightarrow> u32 \<Rightarrow> u32 \<Rightarrow> u32 \<Rightarrow> u32 \<Rightarrow> u32 \<Rightarrow> int \<times> int \<times> int \<times> int" where
  "tile_rect M k n mwid i myo tyo =
     (if i < word_of_int (nmaster M)
      then (let hh = (word_of_int (wh M) - myo) div (min n (word_of_int (nmaster M)) - i)
            in (wx M, sint (word_of_int (wy M) + myo),
                sint (mwid - word_of_int (2 * bw k)), sint (hh - word_of_int (2 * bw k))))
      else (let hh = (word_of_int (wh M) - tyo) div (n - i)
            in (sint (word_of_int (wx M) + mwid), sint (word_of_int (wy M) + tyo),
                sint (word_of_int (ww M) - mwid - word_of_int (2 * bw k)),
                sint (hh - word_of_int (2 * bw k)))))"

text \<open>The offset after a client was placed (dwm.c 1836-1837 and 1841-1842).\<close>

definition tile_advance :: "'f State \<Rightarrow> mref \<Rightarrow> cref \<Rightarrow> u32 \<Rightarrow> u32" where
  "tile_advance st m c off =
     (let hc = (word_of_int (HEIGHT (cl st c)) :: u32)
      in if off + hc < word_of_int (wh (mn st m)) then off + hc else off)"

text \<open>The placing loop of \<^verbatim>\<open>tile\<close> (dwm.c 1832-1843). Beside the state the loop returns, in
  order, the client and the rectangle of every call of \<^verbatim>\<open>resize\<close> it makes.\<close>

fun tile_loop ::
  "'f Config \<Rightarrow> mref \<Rightarrow> u32 \<Rightarrow> u32 \<Rightarrow> u32 \<Rightarrow> u32 \<Rightarrow> u32 \<Rightarrow> cref list \<Rightarrow> 'f State
     \<Rightarrow> (cref \<times> int \<times> int \<times> int \<times> int) list \<times> 'f State" where
  "tile_loop cfg m n mwid i myo tyo [] st = ([], st)"
| "tile_loop cfg m n mwid i myo tyo (c # cs) st =
     (if nottiled st c then tile_loop cfg m n mwid i myo tyo cs st
      else (case tile_rect (mn st m) (cl st c) n mwid i myo tyo of
              (rx, ry, rw, rh) \<Rightarrow>
                (let master = (i < word_of_int (nmaster (mn st m)));
                     st1 = resize cfg st c rx ry rw rh False;
                     myo1 = (if master then tile_advance st1 m c myo else myo);
                     tyo1 = (if master then tyo else tile_advance st1 m c tyo)
                 in case tile_loop cfg m n mwid (i + 1) myo1 tyo1 cs st1 of
                      (rs, st2) \<Rightarrow> ((c, rx, ry, rw, rh) # rs, st2))))"

text \<open>\<^verbatim>\<open>tile\<close> (dwm.c 1818-1844): \<open>tile_calls\<close> are the calls of \<^verbatim>\<open>resize\<close>, \<open>tile\<close> the state.\<close>

definition tile_run ::
  "'f Config \<Rightarrow> 'f State \<Rightarrow> mref \<Rightarrow> (cref \<times> int \<times> int \<times> int \<times> int) list \<times> 'f State" where
  "tile_run cfg st m =
     (let n = (of_nat (tile_count st (clients (mn st m))) :: u32)
      in if n = 0 then ([], st)
         else tile_loop cfg m n (tile_mw cfg (mn st m) n) 0 0 0 (clients (mn st m)) st)"

definition tile_calls ::
  "'f Config \<Rightarrow> 'f State \<Rightarrow> mref \<Rightarrow> (cref \<times> int \<times> int \<times> int \<times> int) list" where
  "tile_calls cfg st m = fst (tile_run cfg st m)"

definition tile :: "'f Config \<Rightarrow> 'f State \<Rightarrow> mref \<Rightarrow> 'f State" where
  "tile cfg st m = snd (tile_run cfg st m)"

text \<open>\<^verbatim>\<open>monocle\<close> (dwm.c 1215-1228); the layout symbol it overrides is not modelled.\<close>

fun monocle_loop :: "'f Config \<Rightarrow> mref \<Rightarrow> cref list \<Rightarrow> 'f State \<Rightarrow> 'f State" where
  "monocle_loop cfg m [] st = st"
| "monocle_loop cfg m (c # cs) st =
     (if nottiled st c then monocle_loop cfg m cs st
      else (let M = mn st m; k = cl st c
            in monocle_loop cfg m cs
                 (resize cfg st c (wx M) (wy M) (ww M - 2 * bw k) (wh M - 2 * bw k) False)))"

definition monocle :: "'f Config \<Rightarrow> 'f State \<Rightarrow> mref \<Rightarrow> 'f State" where
  "monocle cfg st m = monocle_loop cfg m (clients (mn st m)) st"

text \<open>\<^verbatim>\<open>showhide\<close> (dwm.c 1760-1776), along the \<^verbatim>\<open>snext\<close> chain.\<close>

fun showhide :: "'f Config \<Rightarrow> cref list \<Rightarrow> 'f State \<Rightarrow> 'f State" where
  "showhide cfg [] st = st"
| "showhide cfg (c # cs) st =
     (if ISVISIBLE st c
      then (let k = cl st c;
                M = mn st (mon k);
                st1 = xsend (XMoveWindow (win k) (cx k) (cy k)) st;
                st2 = (if (lt_arrange (lt M (sellt M)) = None \<or> isfloating k) \<and> \<not> isfullscreen k
                       then resize cfg st1 c (cx k) (cy k) (cw k) (ch k) False else st1)
            in showhide cfg cs st2)
      else (let st1 = showhide cfg cs st;
                k = cl st1 c
            in xsend (XMoveWindow (win k) (WIDTH k * - 2) (cy k)) st1))"

text \<open>\<^verbatim>\<open>restack\<close> (dwm.c 1482-1505): only requests to the server; the bar is not modelled.\<close>

fun restack_loop :: "window \<Rightarrow> cref list \<Rightarrow> 'f State \<Rightarrow> 'f State" where
  "restack_loop sib [] st = st"
| "restack_loop sib (c # cs) st =
     (if \<not> isfloating (cl st c) \<and> ISVISIBLE st c
      then restack_loop (win (cl st c)) cs (xsend (XRestackBelow (win (cl st c)) sib) st)
      else restack_loop sib cs st)"

definition restack :: "'f State \<Rightarrow> mref \<Rightarrow> 'f State" where
  "restack st m =
     (let M = mn st m in
      case sel M of
        None \<Rightarrow> st
      | Some s \<Rightarrow>
          (let st1 = (if isfloating (cl st s) \<or> lt_arrange (lt M (sellt M)) = None
                      then xsend (XRaiseWindow (win (cl st s))) st else st)
           in if lt_arrange (lt M (sellt M)) \<noteq> None
              then restack_loop (barwin M) (stack M) st1 else st1))"

text \<open>\<^verbatim>\<open>arrangemon\<close> (dwm.c 490-496) and \<^verbatim>\<open>arrange\<close> (dwm.c 476-488).\<close>

definition arrangemon :: "'f Config \<Rightarrow> 'f State \<Rightarrow> mref \<Rightarrow> 'f State" where
  "arrangemon cfg st m =
     (case lt_arrange (lt (mn st m) (sellt (mn st m))) of
        None \<Rightarrow> st
      | Some Tile \<Rightarrow> tile cfg st m
      | Some Monocle \<Rightarrow> monocle cfg st m)"

definition arrange :: "'f Config \<Rightarrow> 'f State \<Rightarrow> mref option \<Rightarrow> 'f State" where
  "arrange cfg st mo =
     (case mo of
        Some m \<Rightarrow> restack (arrangemon cfg (showhide cfg (stack (mn st m)) st) m) m
      | None \<Rightarrow>
          (let st1 = fold (\<lambda>m s. showhide cfg (stack (mn s m)) s) (mons st) st
           in fold (\<lambda>m s. arrangemon cfg s m) (mons st1) st1))"

section \<open>Windows, monitors and focus\<close>

text \<open>\<^verbatim>\<open>wintoclient\<close> (dwm.c 2196-2207): the first client, monitor by monitor, with the window.\<close>

definition wintoclient :: "'f State \<Rightarrow> window \<Rightarrow> cref option" where
  "wintoclient st w0 =
     find (\<lambda>c. win (cl st c) = w0) (concat (map (\<lambda>m. clients (mn st m)) (mons st)))"

text \<open>The macro \<^verbatim>\<open>INTERSECT\<close> and \<^verbatim>\<open>recttomon\<close> (dwm.c 1389-1401).\<close>

definition INTERSECT :: "int \<Rightarrow> int \<Rightarrow> int \<Rightarrow> int \<Rightarrow> 'f Monitor \<Rightarrow> int" where
  "INTERSECT x0 y0 w0 h0 M =
     max 0 (min (x0 + w0) (wx M + ww M) - max x0 (wx M))
       * max 0 (min (y0 + h0) (wy M + wh M) - max y0 (wy M))"

fun recttomon_loop ::
  "'f State \<Rightarrow> int \<Rightarrow> int \<Rightarrow> int \<Rightarrow> int \<Rightarrow> mref list \<Rightarrow> int \<Rightarrow> mref \<Rightarrow> mref" where
  "recttomon_loop st x0 y0 w0 h0 [] area r = r"
| "recttomon_loop st x0 y0 w0 h0 (m # ms) area r =
     (let a = INTERSECT x0 y0 w0 h0 (mn st m)
      in if a > area then recttomon_loop st x0 y0 w0 h0 ms a m
         else recttomon_loop st x0 y0 w0 h0 ms area r)"

definition recttomon :: "'f State \<Rightarrow> int \<Rightarrow> int \<Rightarrow> int \<Rightarrow> int \<Rightarrow> mref" where
  "recttomon st x0 y0 w0 h0 = recttomon_loop st x0 y0 w0 h0 (mons st) 0 (selmon st)"

text \<open>\<^verbatim>\<open>wintomon\<close> (dwm.c 2209-2224); \<open>ptr\<close> is the reply of \<^verbatim>\<open>getrootptr\<close>, \<open>None\<close> when it
  returns 0.\<close>

definition wintomon :: "'f State \<Rightarrow> window \<Rightarrow> mref" where
  "wintomon st w0 =
     (case (if w0 = root st then ptr st else None) of
        Some (px, py) \<Rightarrow> recttomon st px py 1 1
      | None \<Rightarrow>
          (case find (\<lambda>m. barwin (mn st m) = w0) (mons st) of
             Some m \<Rightarrow> m
           | None \<Rightarrow>
               (case wintoclient st w0 of
                  Some c \<Rightarrow> mon (cl st c)
                | None \<Rightarrow> selmon st)))"

text \<open>\<^verbatim>\<open>unfocus\<close> (dwm.c 1896-1907) only regrabs buttons, colours the border and may give the
  input focus to the root window: no modelled field changes.\<close>

definition unfocus :: "'f State \<Rightarrow> cref option \<Rightarrow> bool \<Rightarrow> 'f State" where
  "unfocus st co setfocus = st"

text \<open>\<^verbatim>\<open>seturgent\<close> (dwm.c 1747-1758); the WM hints it rewrites live in the server.\<close>

definition seturgent :: "'f State \<Rightarrow> cref \<Rightarrow> bool \<Rightarrow> 'f State" where
  "seturgent st c urg = upd_client st c (\<lambda>k. k\<lparr>isurgent := urg\<rparr>)"

text \<open>\<^verbatim>\<open>detachstack\<close> (dwm.c 764-776) and \<^verbatim>\<open>attachstack\<close> (dwm.c 505-510). The client is taken
  to be on the stack of its monitor, as the code assumes.\<close>

definition detachstack :: "'f State \<Rightarrow> cref \<Rightarrow> 'f State" where
  "detachstack st c =
     (let m = mon (cl st c);
          st1 = upd_mon st m (\<lambda>M. M\<lparr>stack := remove1 c (stack M)\<rparr>)
      in if sel (mn st1 m) = Some c
         then upd_mon st1 m (\<lambda>M. M\<lparr>sel := find (ISVISIBLE st1) (stack M)\<rparr>)
         else st1)"

definition attachstack :: "'f State \<Rightarrow> cref \<Rightarrow> 'f State" where
  "attachstack st c = upd_mon st (mon (cl st c)) (\<lambda>M. M\<lparr>stack := c # stack M\<rparr>)"

text \<open>\<^verbatim>\<open>focus\<close> (dwm.c 890-913).\<close>

definition focus :: "'f State \<Rightarrow> cref option \<Rightarrow> 'f State" where
  "focus st co =
     (let c = (case co of
                 None \<Rightarrow> find (ISVISIBLE st) (stack (mn st (selmon st)))
               | Some k \<Rightarrow> if \<not> ISVISIBLE st k
                           then find (ISVISIBLE st) (stack (mn st (selmon st))) else Some k);
          st1 = (case sel (mn st (selmon st)) of
                   None \<Rightarrow> st
                 | Some s \<Rightarrow> if Some s \<noteq> c then unfocus st (Some s) False else st);
          st2 = (case c of
                   None \<Rightarrow> st1
                 | Some k \<Rightarrow>
                     (let sa = (if mon (cl st1 k) \<noteq> selmon st1
                                then st1\<lparr>selmon := mon (cl st1 k)\<rparr> else st1);
                          sb = (if isurgent (cl sa k) then seturgent sa k False else sa)
                      in attachstack (detachstack sb k) k))
      in upd_mon st2 (selmon st2) (\<lambda>M. M\<lparr>sel := c\<rparr>))"

text \<open>\<^verbatim>\<open>setclientstate\<close> (dwm.c 1567-1574) reads \<^verbatim>\<open>c->win\<close>: its argument must not be null.\<close>

definition NormalState :: int where "NormalState = 1"

definition setclientstate :: "'f State \<Rightarrow> cref \<Rightarrow> int \<Rightarrow> 'f State" where
  "setclientstate st c state = xsend (SetWMState (win (cl st c)) state) st"

section \<open>Event handlers and actions\<close>

record XCrossingEvent =
  xc_window :: window
  xc_mode :: int
  xc_detail :: int

definition NotifyNormal :: int where "NotifyNormal = 0"
definition NotifyInferior :: int where "NotifyInferior = 2"

text \<open>\<^verbatim>\<open>enternotify\<close> (dwm.c 859-878). The last statement passes \<^verbatim>\<open>c\<close> to \<^verbatim>\<open>setclientstate\<close>
  without a test: a null \<^verbatim>\<open>c\<close> is the fault \<open>NullDeref\<close>.\<close>

definition enternotify_tail :: "'f State \<Rightarrow> XCrossingEvent \<Rightarrow> cref option \<Rightarrow> fault + 'f State" where
  "enternotify_tail st ev c =
     (let st1 = focus st c;
          st2 = xsend (XRaiseWindow (xc_window ev)) st1
      in case c of
           None \<Rightarrow> Inl NullDeref
         | Some k \<Rightarrow> Inr (setclientstate st2 k NormalState))"

definition enternotify :: "'f State \<Rightarrow> XCrossingEvent \<Rightarrow> fault + 'f State" where
  "enternotify st ev =
     (if (xc_mode ev \<noteq> NotifyNormal \<or> xc_detail ev = NotifyInferior) \<and> xc_window ev \<noteq> root st
      then Inr st
      else (let c = wintoclient st (xc_window ev);
                m = (case c of Some k \<Rightarrow> mon (cl st k) | None \<Rightarrow> wintomon st (xc_window ev))
            in if m \<noteq> selmon st
               then enternotify_tail
                      ((unfocus st (sel (mn st (selmon st))) True)\<lparr>selmon := m\<rparr>) ev c
               else if c = None \<or> c = sel (mn st (selmon st)) then Inr st
               else enternotify_tail st ev c))"

text \<open>\<^verbatim>\<open>setfullscreen\<close> (dwm.c 1613-1639).\<close>

definition setfullscreen :: "'f Config \<Rightarrow> 'f State \<Rightarrow> cref \<Rightarrow> bool \<Rightarrow> 'f State" where
  "setfullscreen cfg st c fullscreen =
     (if fullscreen \<and> \<not> isfullscreen (cl st c)
      then (let st1 = xsend (SetNetWMFullscreen (win (cl st c)) True) st;
                st2 = upd_client st1 c (\<lambda>k. k\<lparr>isfullscreen := True, oldstate := isfloating k,
                                                 oldbw := bw k, bw := 0, isfloating := True\<rparr>);
                M = mn st2 (mon (cl st2 c));
                st3 = resizeclient st2 c (mx M) (my M) (mw M) (mh M)
            in xsend (XRaiseWindow (win (cl st3 c))) st3)
      else if \<not> fullscreen \<and> isfullscreen (cl st c)
      then (let st1 = xsend (SetNetWMFullscreen (win (cl st c)) False) st;
                st2 = upd_client st1 c (\<lambda>k. k\<lparr>isfullscreen := False, isfloating := oldstate k,
                                                 bw := oldbw k, cx := oldx k, cy := oldy k,
                                                 cw := oldw k, ch := oldh k\<rparr>);
                k2 = cl st2 c;
                st3 = resizeclient st2 c (cx k2) (cy k2) (cw k2) (ch k2)
            in arrange cfg st3 (Some (mon (cl st3 c))))
      else st)"

record XConfigureRequestEvent =
  cr_window :: window
  cr_value_mask :: "64 word"
  cr_x :: int
  cr_y :: int
  cr_width :: int
  cr_height :: int
  cr_border_width :: int

definition CWX :: "64 word" where "CWX = 1"
definition CWY :: "64 word" where "CWY = 2"
definition CWWidth :: "64 word" where "CWWidth = 4"
definition CWHeight :: "64 word" where "CWHeight = 8"
definition CWBorderWidth :: "64 word" where "CWBorderWidth = 16"

text \<open>C's integer division truncates towards zero.\<close>

definition c_div :: "int \<Rightarrow> int \<Rightarrow> int" where
  "c_div a b = sgn a * sgn b * (\<bar>a\<bar> div \<bar>b\<bar>)"

text \<open>Lines 689-704 of \<^verbatim>\<open>configurerequest\<close>: the fields of the request named in the value mask
  are stored in the client; \<open>M\<close> is the monitor \<^verbatim>\<open>m = c->mon\<close>.\<close>

definition cr_store :: "'f Monitor \<Rightarrow> XConfigureRequestEvent \<Rightarrow> 'f Client \<Rightarrow> 'f Client" where
  "cr_store M ev k =
     (let vm = cr_value_mask ev;
          k1 = (if vm AND CWX \<noteq> 0 then k\<lparr>oldx := cx k, cx := mx M + cr_x ev\<rparr> else k);
          k2 = (if vm AND CWY \<noteq> 0 then k1\<lparr>oldy := cy k1, cy := my M + cr_y ev\<rparr> else k1);
          k3 = (if vm AND CWWidth \<noteq> 0 then k2\<lparr>oldw := cw k2, cw := cr_width ev\<rparr> else k2)
      in (if vm AND CWHeight \<noteq> 0 then k3\<lparr>oldh := ch k3, ch := cr_height ev\<rparr> else k3))"

text \<open>Lines 705-708: a floating client that would reach past the right or the bottom edge
  of the monitor is centred in that direction.\<close>

definition cr_center :: "'f Monitor \<Rightarrow> 'f Client \<Rightarrow> 'f Client" where
  "cr_center M k =
     (let k1 = (if cx k + cw k > mx M + mw M \<and> isfloating k
                then k\<lparr>cx := mx M + (c_div (mw M) 2 - c_div (WIDTH k) 2)\<rparr> else k)
      in (if cy k1 + ch k1 > my M + mh M \<and> isfloating k1
          then k1\<lparr>cy := my M + (c_div (mh M) 2 - c_div (HEIGHT k1) 2)\<rparr> else k1))"

text \<open>\<^verbatim>\<open>configurerequest\<close> (dwm.c 675-726). Line 684 sets \<^verbatim>\<open>c->isfloating = 1\<close> before the
  branches are chosen. The sibling and stacking mode of a request passed through for an
  unmanaged window are not recorded.\<close>

definition configurerequest :: "'f State \<Rightarrow> XConfigureRequestEvent \<Rightarrow> 'f State" where
  "configurerequest st ev =
     (case wintoclient st (cr_window ev) of
        Some c \<Rightarrow>
          (let st1 = upd_client st c (\<lambda>k. k\<lparr>isfloating := True\<rparr>);
               vm = cr_value_mask ev
           in if vm AND CWBorderWidth \<noteq> 0
              then upd_client st1 c (\<lambda>k. k\<lparr>bw := cr_border_width ev\<rparr>)
              else if isfloating (cl st1 c)
                        \<or> lt_arrange (lt (mn st1 (selmon st1)) (sellt (mn st1 (selmon st1)))) = None
              then (let M = mn st1 (mon (cl st1 c));
                        st2 = upd_client st1 c (\<lambda>k. cr_center M (cr_store M ev k));
                        st3 = (if vm AND (CWX OR CWY) \<noteq> 0 \<and> vm AND (CWWidth OR CWHeight) = 0
                               then configure st2 c else st2)
                    in if ISVISIBLE st3 c
                       then (let k = cl st3 c
                             in xsend (XMoveResizeWindow (win k) (cx k) (cy k) (cw k) (ch k)) st3)
                       else st3)
              else configure st1 c)
      | None \<Rightarrow>
          xsend (XConfigureWindowRaw (cr_window ev) (cr_value_mask ev) (cr_x ev) (cr_y ev)
                   (cr_width ev) (cr_height ev) (cr_border_width ev)) st)"

text \<open>\<^verbatim>\<open>createmon\<close> (dwm.c 728-743): \<^verbatim>\<open>ecalloc\<close> zeroes the fields that are not assigned.
  \<^verbatim>\<open>layouts\<close> is the non-empty array \<open>layout0 # layouts_rest\<close>.\<close>

definition createmon :: "'f Config \<Rightarrow> 'f Monitor" where
  "createmon cfg =
     \<lparr>mfact = cfg_mfact cfg, nmaster = cfg_nmaster cfg, num = 0,
      mx = 0, my = 0, mw = 0, mh = 0, wx = 0, wy = 0, ww = 0, wh = 0,
      seltags = 0, sellt = 0, tagset = (\<lambda>i. 0)(0 := 1, 1 := 1),
      showbar = cfg_showbar cfg, topbar = cfg_topbar cfg,
      clients = [], sel = None, stack = [], barwin = 0,
      lt = (\<lambda>i. layout0 cfg)
             (1 := (layout0 cfg # layouts_rest cfg) ! (1 mod length (layout0 cfg # layouts_rest cfg)))\<rparr>"

text \<open>\<^verbatim>\<open>view\<close> (dwm.c 2184-2194), \<^verbatim>\<open>toggleview\<close> (1884-1894), \<^verbatim>\<open>tag\<close> (1800-1808) and
  \<^verbatim>\<open>toggletag\<close> (1869-1882); the argument is \<^verbatim>\<open>arg->ui\<close>.\<close>

definition focus_arrange :: "'f Config \<Rightarrow> 'f State \<Rightarrow> 'f State" where
  "focus_arrange cfg st = (let st1 = focus st None in arrange cfg st1 (Some (selmon st1)))"

definition view :: "'f Config \<Rightarrow> 'f State \<Rightarrow> u32 \<Rightarrow> 'f State" where
  "view cfg st ui =
     (if ui AND TAGMASK cfg = tagset (mn st (selmon st)) (seltags (mn st (selmon st))) then st
      else (let st1 = upd_mon st (selmon st) (\<lambda>M. M\<lparr>seltags := seltags M XOR 1\<rparr>);
                st2 = (if ui AND TAGMASK cfg \<noteq> 0
                       then upd_mon st1 (selmon st1)
                              (\<lambda>M. M\<lparr>tagset := (tagset M)(seltags M := ui AND TAGMASK cfg)\<rparr>)
                       else st1)
            in focus_arrange cfg st2))"

definition toggleview :: "'f Config \<Rightarrow> 'f State \<Rightarrow> u32 \<Rightarrow> 'f State" where
  "toggleview cfg st ui =
     (let M0 = mn st (selmon st);
          newtagset = tagset M0 (seltags M0) XOR (ui AND TAGMASK cfg)
      in if newtagset \<noteq> 0
         then focus_arrange cfg
                (upd_mon st (selmon st) (\<lambda>M. M\<lparr>tagset := (tagset M)(seltags M := newtagset)\<rparr>))
         else st)"

definition tag :: "'f Config \<Rightarrow> 'f State \<Rightarrow> u32 \<Rightarrow> 'f State" where
  "tag cfg st ui =
     (case sel (mn st (selmon st)) of
        None \<Rightarrow> st
      | Some s \<Rightarrow>
          if ui AND TAGMASK cfg \<noteq> 0
          then focus_arrange cfg (upd_client st s (\<lambda>k. k\<lparr>tags := ui AND TAGMASK cfg\<rparr>))
          else st)"

definition toggletag :: "'f Config \<Rightarrow> 'f State \<Rightarrow> u32 \<Rightarrow> 'f State" where
  "toggletag cfg st ui =
     (case sel (mn st (selmon st)) of
        None \<Rightarrow> st
      | Some s \<Rightarrow>
          (let newtags = tags (cl st s) XOR (ui AND TAGMASK cfg)
           in if newtags \<noteq> 0
              then focus_arrange cfg (upd_client st s (\<lambda>k. k\<lparr>tags := newtags\<rparr>))
              else st))"

text \<open>\<^verbatim>\<open>togglefloating\<close> (dwm.c 1855-1867).\<close>

definition togglefloating :: "'f Config \<Rightarrow> 'f State \<Rightarrow> 'f State" where
  "togglefloating cfg st =
     (case sel (mn st (selmon st)) of
        None \<Rightarrow> st
      | Some s \<Rightarrow>
          if isfullscreen (cl st s) then st
          else (let st1 = upd_client st s (\<lambda>k. k\<lparr>isfloating := (\<not> isfloating k \<or> isfixed k)\<rparr>);
                    k = cl st1 s;
                    st2 = (if isfloating k then resize cfg st1 s (cx k) (cy k) (cw k) (ch k) False
                           else st1)
                in arrange cfg st2 (Some (selmon st2))))"

text \<open>\<^verbatim>\<open>minimize\<close> (dwm.c 2274-2296) and \<^verbatim>\<open>restore\<close> (dwm.c 2297-2314). The loop over
  \<^verbatim>\<open>c->mon->clients\<close> takes the strip height (20 in \<^verbatim>\<open>minimize\<close>, 10 in \<^verbatim>\<open>restore\<close>) as a
  parameter; \<open>fonth\<close> is \<^verbatim>\<open>drw->fonts->h\<close>.\<close>

fun strip_loop :: "'f Config \<Rightarrow> cref \<Rightarrow> int \<Rightarrow> int \<Rightarrow> cref list \<Rightarrow> 'f State \<Rightarrow> 'f State" where
  "strip_loop cfg c hs x0 [] st = st"
| "strip_loop cfg c hs x0 (d # ds) st =
     (if isminimized (cl st d) \<and> mon (cl st d) = mon (cl st c)
      then strip_loop cfg c hs (x0 + 50) ds
             (resize cfg st d x0 (my (mn st (mon (cl st d))) + fonth st + 2) 50 hs False)
      else strip_loop cfg c hs x0 ds st)"

definition minimize :: "'f Config \<Rightarrow> 'f State \<Rightarrow> cref option \<Rightarrow> 'f State" where
  "minimize cfg st co =
     (case co of
        None \<Rightarrow> st
      | Some c \<Rightarrow>
          if isminimized (cl st c) then st
          else (let st1 = upd_client st c (\<lambda>k. k\<lparr>maximx := cx k, maximy := cy k,
                                                     maximw := cw k, maximh := ch k\<rparr>);
                    ds = clients (mn st1 (mon (cl st1 c)));
                    x0 = mx (mn st1 (mon (cl st1 c)));
                    st2 = upd_client st1 c (\<lambda>k. k\<lparr>isminimized := True, isfloating := True,
                                                     isfullscreen := False\<rparr>);
                    st3 = strip_loop cfg c 20 x0 ds st2;
                    st4 = upd_client st3 c (\<lambda>k. k\<lparr>isfixed := True\<rparr>)
                in arrange cfg st4 (Some (mon (cl st4 c)))))"

definition restore :: "'f Config \<Rightarrow> 'f State \<Rightarrow> cref option \<Rightarrow> 'f State" where
  "restore cfg st co =
     (case co of
        None \<Rightarrow> st
      | Some c \<Rightarrow>
          if \<not> isminimized (cl st c) then st
          else (let k = cl st c;
                    st1 = resize cfg st c (maximx k) (maximy k) (maximw k) (maximh k) True;
                    ds = clients (mn st1 (mon (cl st1 c)));
                    x0 = mx (mn st1 (mon (cl st1 c)));
                    st2 = upd_client st1 c (\<lambda>k. k\<lparr>isminimized := False, isfixed := False\<rparr>);
                    st3 = strip_loop cfg c 10 x0 ds st2
                in arrange cfg st3 (Some (mon (cl st3 c)))))"

section \<open>Rules\<close>

text \<open>\<^verbatim>\<open>strstr (hay, needle) != NULL\<close>: the needle occurs in the haystack.\<close>

fun strstr :: "string \<Rightarrow> string \<Rightarrow> bool" where
  "strstr [] needle = (needle = [])"
| "strstr (a # hay) needle = (take (length needle) (a # hay) = needle \<or> strstr hay needle)"

text \<open>The test of line 390-392 of \<^verbatim>\<open>applyrules\<close>.\<close>

definition rule_matches :: "string \<Rightarrow> string \<Rightarrow> string \<Rightarrow> Rule \<Rightarrow> bool" where
  "rule_matches title cls inst r =
     ((case r_title r of None \<Rightarrow> True | Some t \<Rightarrow> strstr title t)
      \<and> (case r_class r of None \<Rightarrow> True | Some t \<Rightarrow> strstr cls t)
      \<and> (case r_instance r of None \<Rightarrow> True | Some t \<Rightarrow> strstr inst t))"

text \<open>The loop of \<^verbatim>\<open>applyrules\<close> (dwm.c 388-400).\<close>

fun applyrules_loop :: "string \<Rightarrow> string \<Rightarrow> cref \<Rightarrow> Rule list \<Rightarrow> 'f State \<Rightarrow> 'f State" where
  "applyrules_loop cls inst c [] st = st"
| "applyrules_loop cls inst c (r # rs) st =
     (if rule_matches (name (cl st c)) cls inst r
      then (let st1 = upd_client st c (\<lambda>k. k\<lparr>isfloating := r_isfloating r,
                                                 tags := tags k OR r_tags r\<rparr>);
                st2 = (case find (\<lambda>m. num (mn st1 m) = r_monitor r) (mons st1) of
                         Some m \<Rightarrow> upd_client st1 c (\<lambda>k. k\<lparr>mon := m\<rparr>)
                       | None \<Rightarrow> st1)
            in applyrules_loop cls inst c rs st2)
      else applyrules_loop cls inst c rs st)"

text \<open>\<^verbatim>\<open>applyrules\<close> (dwm.c 372-406). \<open>xclass\<close> is the reply of \<^verbatim>\<open>XGetClassHint\<close>
  (\<^verbatim>\<open>res_class\<close>, \<^verbatim>\<open>res_name\<close>); \<^verbatim>\<open>plug->broken\<close> is the string set in \<^verbatim>\<open>main\<close>.\<close>

definition broken :: string where "broken = ''broken''"

definition applyrules :: "'f Config \<Rightarrow> 'f State \<Rightarrow> cref \<Rightarrow> 'f State" where
  "applyrules cfg st c =
     (let st0 = upd_client st c (\<lambda>k. k\<lparr>isfloating := False, tags := 0\<rparr>);
          cls = (case fst (xclass st0 (win (cl st0 c))) of Some s \<Rightarrow> s | None \<Rightarrow> broken);
          inst = (case snd (xclass st0 (win (cl st0 c))) of Some s \<Rightarrow> s | None \<Rightarrow> broken);
          st1 = applyrules_loop cls inst c (rules cfg) st0
      in upd_client st1 c
           (\<lambda>k. k\<lparr>tags := (if tags k AND TAGMASK cfg \<noteq> 0 then tags k AND TAGMASK cfg
                            else tagset (mn st1 (mon k)) (seltags (mn st1 (mon k))))\<rparr>))"

section \<open>Auxiliary definitions\<close>

text \<open>One axis of \<open>clamp_position\<close>: the horizontal and the vertical clamps of
  \<^verbatim>\<open>applysizehints\<close> are the same function of screen length, working-area origin and
  length, outer size of the client, border, position and length.\<close>

definition clamp_axis :: "bool \<Rightarrow> int \<Rightarrow> int \<Rightarrow> int \<Rightarrow> int \<Rightarrow> int \<Rightarrow> int \<Rightarrow> int \<Rightarrow> int" where
  "clamp_axis interact slen org len outer b p l =
     (let p1 = (if interact then (if p > slen then slen - outer else p)
                else (if p \<ge> org + len then org + len - outer else p))
      in (if interact then (if p1 + l + 2 * b < 0 then 0 else p1)
          else (if p1 + l + 2 * b \<le> org then org else p1)))"

text \<open>The fields of a client that resizing and arranging never write, and the relation
  between two states that differ at most in the geometry and size hints of clients and in
  the trace of requests.\<close>

definition flagsof ::
  "'f Client \<Rightarrow> bool \<times> bool \<times> int \<times> int \<times> bool \<times> u32 \<times> mref \<times> bool \<times> window" where
  "flagsof k = (isfullscreen k, isfloating k, bw k, oldbw k, oldstate k, tags k, mon k,
                isminimized k, win k)"

definition frame_eq :: "'f State \<Rightarrow> 'f State \<Rightarrow> bool" where
  "frame_eq st st' =
     (mn st' = mn st \<and> mons st' = mons st \<and> selmon st' = selmon st \<and> sw st' = sw st
      \<and> sh st' = sh st \<and> bh st' = bh st \<and> fonth st' = fonth st \<and> root st' = root st
      \<and> xhints st' = xhints st \<and> xclass st' = xclass st \<and> ptr st' = ptr st
      \<and> (\<forall>c. flagsof (cl st' c) = flagsof (cl st c)))"

text \<open>The invariant of the specification: a fullscreen client floats and has no border.
  \<open>managed\<close> are the clients on the list of some monitor.\<close>

definition fs_ok :: "'f Client \<Rightarrow> bool" where
  "fs_ok k = (isfullscreen k \<longrightarrow> isfloating k \<and> bw k = 0)"

definition managed :: "'f State \<Rightarrow> cref \<Rightarrow> bool" where
  "managed st c = (\<exists>m \<in> set (mons st). c \<in> set (clients (mn st m)))"

definition fullscreen_inv :: "'f State \<Rightarrow> bool" where
  "fullscreen_inv st = (\<forall>c. managed st c \<longrightarrow> fs_ok (cl st c))"

text \<open>\<open>fs_step st st'\<close>: the step keeps the monitors and their lists, and every client that
  satisfied the fullscreen invariant still does.\<close>

definition fs_step :: "'f State \<Rightarrow> 'f State \<Rightarrow> bool" where
  "fs_step st st' =
     (mn st' = mn st \<and> mons st' = mons st \<and> (\<forall>d. fs_ok (cl st d) \<longrightarrow> fs_ok (cl st' d)))"

text \<open>Both tagsets of a monitor are non-empty and the selector is 0 or 1; two states whose
  monitors have the same tagsets and selectors; and the states reached from freshly
  created monitors by \<^verbatim>\<open>view\<close>, \<^verbatim>\<open>toggleview\<close>, \<^verbatim>\<open>tag\<close>, \<^verbatim>\<open>toggletag\<close> and by steps that leave
  the tagsets alone.\<close>

definition tags_ok :: "'f Monitor \<Rightarrow> bool" where
  "tags_ok M = (seltags M < 2 \<and> tagset M 0 \<noteq> 0 \<and> tagset M 1 \<noteq> 0)"

definition same_tags :: "'f State \<Rightarrow> 'f State \<Rightarrow> bool" where
  "same_tags st st' =
     (\<forall>m. tagset (mn st' m) = tagset (mn st m) \<and> seltags (mn st' m) = seltags (mn st m))"

inductive tag_reach :: "'f Config \<Rightarrow> 'f State \<Rightarrow> bool" for cfg :: "'f Config" where
  created: "(\<And>m. tagset (mn st m) 0 = tagset (createmon cfg) 0
                 \<and> tagset (mn st m) 1 = tagset (createmon cfg) 1
                 \<and> seltags (mn st m) = seltags (createmon cfg)) \<Longrightarrow> tag_reach cfg st"
| by_view: "tag_reach cfg st \<Longrightarrow> tag_reach cfg (view cfg st ui)"
| by_toggleview: "tag_reach cfg st \<Longrightarrow> tag_reach cfg (toggleview cfg st ui)"
| by_tag: "tag_reach cfg st \<Longrightarrow> tag_reach cfg (tag cfg st ui)"
| by_toggletag: "tag_reach cfg st \<Longrightarrow> tag_reach cfg (toggletag cfg st ui)"
| by_other: "tag_reach cfg st \<Longrightarrow> same_tags st st' \<Longrightarrow> tag_reach cfg st'"

text \<open>The rules that match a client, in the words of the specification: every pattern that
  is present occurs in the title, the class and the instance of the client.\<close>

definition occurs_in :: "string \<Rightarrow> string \<Rightarrow> bool" where
  "occurs_in needle hay = (\<exists>ps ss. hay = ps @ needle @ ss)"

definition spec_rule_matches :: "string \<Rightarrow> string \<Rightarrow> string \<Rightarrow> Rule \<Rightarrow> bool" where
  "spec_rule_matches title cls inst r =
     ((\<forall>t. r_title r = Some t \<longrightarrow> occurs_in t title)
      \<and> (\<forall>t. r_class r = Some t \<longrightarrow> occurs_in t cls)
      \<and> (\<forall>t. r_instance r = Some t \<longrightarrow> occurs_in t inst))"

text \<open>The class and instance \<^verbatim>\<open>applyrules\<close> compares with, and the rules that match.\<close>

definition client_class :: "'f State \<Rightarrow> cref \<Rightarrow> string" where
  "client_class st c = (case fst (xclass st (win (cl st c))) of Some s \<Rightarrow> s | None \<Rightarrow> broken)"

definition client_instance :: "'f State \<Rightarrow> cref \<Rightarrow> string" where
  "client_instance st c = (case snd (xclass st (win (cl st c))) of Some s \<Rightarrow> s | None \<Rightarrow> broken)"

definition matching_rules :: "'f Config \<Rightarrow> 'f State \<Rightarrow> cref \<Rightarrow> Rule list" where
  "matching_rules cfg st c =
     filter (rule_matches (name (cl st c)) (client_class st c) (client_instance st c)) (rules cfg)"

text \<open>The monitor a client ends on: each matching rule in turn moves it to the first monitor
  with the index of the rule, when there is one.\<close>

definition rehome :: "'f State \<Rightarrow> Rule \<Rightarrow> mref \<Rightarrow> mref" where
  "rehome st r m = (case find (\<lambda>m'. num (mn st m') = r_monitor r) (mons st) of
                      Some m' \<Rightarrow> m' | None \<Rightarrow> m)"

text \<open>A value in the range of a 32-bit \<^verbatim>\<open>int\<close>.\<close>

definition int32 :: "int \<Rightarrow> bool" where
  "int32 v = (- (2 ^ 31) \<le> v \<and> v < 2 ^ 31)"

text \<open>The ranges in which the arithmetic of \<^verbatim>\<open>tile\<close> (dwm.c 1818-1844) does not wrap: between 1
  and \<open>2 ^ 31 - 1\<close> clients to tile, \<^verbatim>\<open>nmaster\<close> a non-negative \<^verbatim>\<open>int\<close> (\<^verbatim>\<open>incnmaster\<close> keeps it so),
  and the left edge and the inner widths of the column \<^verbatim>\<open>int\<close> values.\<close>

definition tile_in_range :: "'f State \<Rightarrow> mref \<Rightarrow> bool" where
  "tile_in_range st m =
     (let M = mn st m
      in 0 < tile_count st (clients M) \<and> tile_count st (clients M) < 2 ^ 31
         \<and> 0 \<le> nmaster M \<and> nmaster M < 2 ^ 31
         \<and> int32 (wx M)
         \<and> (\<forall>c \<in> set (clients M). int32 (ww M - 2 * bw (cl st c))))"

text \<open>The conditions under which \<^verbatim>\<open>resize\<close> stores the rectangle \<^verbatim>\<open>tile\<close> hands to it for a
  full-width column: no size hints are applied to tiled clients (\<^verbatim>\<open>resizehints\<close> is off and
  the monitor has an arranger), the tiled clients on the list belong to the monitor, and
  the inner width of the column is positive and not below the bar height.\<close>

definition tile_unhinted :: "'f Config \<Rightarrow> 'f State \<Rightarrow> mref \<Rightarrow> bool" where
  "tile_unhinted cfg st m =
     (let M = mn st m
      in \<not> resizehints cfg \<and> lt_arrange (lt M (sellt M)) \<noteq> None \<and> 0 < ww M
         \<and> (\<forall>c \<in> set (clients M). \<not> nottiled st c \<longrightarrow>
               mon (cl st c) = m \<and> 1 \<le> ww M - 2 * bw (cl st c)
               \<and> bh st \<le> ww M - 2 * bw (cl st c)))"

section \<open>Example inputs\<close>

text \<open>A configuration in the style of dwm's default \<^verbatim>\<open>config.h\<close>, with floats held in
  hundredths, and a 1920x1080 monitor with a 16 pixel bar on top. Address \<open>c\<close> holds a
  client with window \<open>100 + c\<close>; monitor \<open>m\<close> starts at x = 1920 m.\<close>

definition ex_tile :: Layout where
  "ex_tile = \<lparr>symbol = ''[]='', lt_arrange = Some Tile\<rparr>"

definition ex_float :: Layout where
  "ex_float = \<lparr>symbol = ''><>'', lt_arrange = None\<rparr>"

definition ex_monocle :: Layout where
  "ex_monocle = \<lparr>symbol = ''[M]'', lt_arrange = Some Monocle\<rparr>"

definition ex_cfg :: "int Config" where
  "ex_cfg =
     \<lparr>resizehints = False, ntags = 9,
      rules = [\<lparr>r_class = Some ''Gimp'', r_instance = None, r_title = None,
                r_tags = 8, r_isfloating = True, r_monitor = - 1\<rparr>,
               \<lparr>r_class = Some ''Firefox'', r_instance = None, r_title = None,
                r_tags = 256, r_isfloating = False, r_monitor = - 1\<rparr>],
      layout0 = ex_tile, layouts_rest = [ex_float, ex_monocle],
      cfg_mfact = 55, cfg_nmaster = 1, cfg_showbar = True, cfg_topbar = True,
      f_pos = (\<lambda>f. 0 < f),
      f_lt_quot = (\<lambda>f p q. 0 < q \<and> f * q < 100 * p),
      f_mul_round = (\<lambda>i f. (i * f + 50) div 100),
      f_mul_uint = (\<lambda>i f. word_of_int (i * f div 100)),
      f_quot = (\<lambda>p q. 100 * p div q),
      f_zero = 0\<rparr>"

definition ex_client :: "int Client" where
  "ex_client =
     \<lparr>name = ''xterm'', mina = 0, maxa = 0, cx = 0, cy = 16, cw = 800, ch = 600,
      oldx = 0, oldy = 16, oldw = 800, oldh = 600,
      maximx = 0, maximy = 0, maximw = 0, maximh = 0,
      basew = 0, baseh = 0, incw = 0, inch = 0, maxw = 0, maxh = 0, minw = 0, minh = 0,
      hintsvalid = True, bw = 2, oldbw = 1, tags = 1,
      isfixed = False, isfloating = False, isurgent = False, neverfocus = False,
      oldstate = False, isfullscreen = False, isminimized = False, mon = 0, win = 0\<rparr>"

definition ex_mon :: "int Monitor" where
  "ex_mon =
     \<lparr>mfact = 55, nmaster = 1, num = 0, mx = 0, my = 0, mw = 1920, mh = 1080,
      wx = 0, wy = 16, ww = 1920, wh = 1064, seltags = 0, sellt = 0,
      tagset = (\<lambda>i. 0)(0 := 1, 1 := 1), showbar = True, topbar = True,
      clients = [], sel = None, stack = [], barwin = 0,
      lt = (\<lambda>i. if i = 0 then ex_tile else ex_float)\<rparr>"

definition ex_state :: "int State" where
  "ex_state =
     \<lparr>cl = (\<lambda>c. ex_client\<lparr>win := 100 + c\<rparr>),
      mn = (\<lambda>m. ex_mon\<lparr>num := int m, mx := 1920 * int m, wx := 1920 * int m,
                         barwin := 50 + m\<rparr>),
      mons = [0], selmon = 0, sw = 1920, sh = 1080, bh = 16, fonth = 14, root = 1,
      xout = [], xhints = (\<lambda>w. None), xclass = (\<lambda>w. (None, None)), ptr = None\<rparr>"

text \<open>Client 1 alone on monitor 0, floating, with a maximum width of 100 in its hints.\<close>

definition ex_state_maxw :: "int State" where
  "ex_state_maxw =
     upd_client (upd_mon ex_state 0 (\<lambda>M. M\<lparr>clients := [1], stack := [1], sel := Some 1\<rparr>)) 1
       (\<lambda>k. k\<lparr>isfloating := True, maxw := 100, cx := 100, cy := 100\<rparr>)"

text \<open>Client 1 alone on monitor 0 and fullscreen; a request for a border of 5 pixels and a
  request for the rectangle (100, 200, 800, 600), both for its window 101.\<close>

definition ex_state_fs :: "int State" where
  "ex_state_fs =
     upd_client (upd_mon ex_state 0 (\<lambda>M. M\<lparr>clients := [1], stack := [1], sel := Some 1\<rparr>)) 1
       (\<lambda>k. k\<lparr>isfullscreen := True, isfloating := True, bw := 0, oldbw := 2,
               cx := 0, cy := 0, cw := 1920, ch := 1080\<rparr>)"

definition ex_border_request :: XConfigureRequestEvent where
  "ex_border_request =
     \<lparr>cr_window = 101, cr_value_mask = 16, cr_x = 0, cr_y = 0, cr_width = 0, cr_height = 0,
      cr_border_width = 5\<rparr>"

definition ex_geometry_request :: XConfigureRequestEvent where
  "ex_geometry_request =
     \<lparr>cr_window = 101, cr_value_mask = 15, cr_x = 100, cr_y = 200, cr_width = 800,
      cr_height = 600, cr_border_width = 0\<rparr>"

text \<open>Client 1 alone on monitor 0, tiled under the tile layout at (0, 16, 1916, 1060); a
  request that only moves its window 101.\<close>

definition ex_state_tiled :: "int State" where
  "ex_state_tiled =
     upd_client (upd_mon ex_state 0 (\<lambda>M. M\<lparr>clients := [1], stack := [1], sel := Some 1\<rparr>)) 1
       (\<lambda>k. k\<lparr>cx := 0, cy := 16, cw := 1916, ch := 1060\<rparr>)"

definition ex_move_request :: XConfigureRequestEvent where
  "ex_move_request =
     \<lparr>cr_window = 101, cr_value_mask = 3, cr_x = 50, cr_y = 60, cr_width = 0,
      cr_height = 0, cr_border_width = 0\<rparr>"

text \<open>Client 1 alone on monitor 0, floating, 5x5 at (100, 100): smaller than the bar is
  high.\<close>

definition ex_state_small :: "int State" where
  "ex_state_small =
     upd_client (upd_mon ex_state 0 (\<lambda>M. M\<lparr>clients := [1], stack := [1], sel := Some 1\<rparr>)) 1
       (\<lambda>k. k\<lparr>isfloating := True, cx := 100, cy := 100, cw := 5, ch := 5\<rparr>)"

text \<open>Two monitors side by side, no client, the pointer on monitor 1 while monitor 0 is
  selected; an \<^verbatim>\<open>EnterNotify\<close> for the root window (window 1).\<close>

definition ex_state_two_mons :: "int State" where
  "ex_state_two_mons = ex_state\<lparr>mons := [0, 1], sw := 3840, ptr := Some (2000, 500)\<rparr>"

definition ex_root_enter :: XCrossingEvent where
  "ex_root_enter = \<lparr>xc_window = 1, xc_mode = 0, xc_detail = 3\<rparr>"

text \<open>Clients 1 and 2 tiled on monitor 0; and the same two clients minimized, laid out as
  \<^verbatim>\<open>minimize\<close> leaves them: 50x20 strips at x = 0 and x = 50 under the bar.\<close>

definition ex_state_two :: "int State" where
  "ex_state_two =
     upd_client
       (upd_client
          (upd_mon ex_state 0 (\<lambda>M. M\<lparr>clients := [1, 2], stack := [1, 2], sel := Some 1\<rparr>)) 1
          (\<lambda>k. k\<lparr>cx := 0, cy := 16, cw := 1052, ch := 1060\<rparr>)) 2
       (\<lambda>k. k\<lparr>cx := 1056, cy := 16, cw := 860, ch := 1060\<rparr>)"

definition ex_state_minimized :: "int State" where
  "ex_state_minimized =
     upd_client
       (upd_client
          (upd_mon ex_state 0 (\<lambda>M. M\<lparr>clients := [1, 2], stack := [1, 2], sel := Some 1\<rparr>)) 1
          (\<lambda>k. k\<lparr>cx := 0, cy := 16, cw := 50, ch := 20, isminimized := True, isfloating := True,
                  isfixed := True, maximx := 0, maximy := 16, maximw := 1052, maximh := 1060\<rparr>)) 2
       (\<lambda>k. k\<lparr>cx := 50, cy := 16, cw := 50, ch := 20, isminimized := True, isfloating := True,
               isfixed := True, maximx := 1056, maximy := 16, maximw := 860, maximh := 1060\<rparr>)"

text \<open>Clients 1 and 2 on monitor 0; the window of client 1 has class Gimp, the window of
  client 2 has no class hint.\<close>

definition ex_state_gimp :: "int State" where
  "ex_state_gimp =
     (upd_mon ex_state 0 (\<lambda>M. M\<lparr>clients := [1, 2], stack := [1, 2], sel := Some 1\<rparr>))
       \<lparr>xclass := (\<lambda>w. if w = 101 then (Some ''Gimp'', Some ''gimp'') else (None, None))\<rparr>"

definition ex_state_two_stack :: "int State" where
  "ex_state_two_stack = upd_mon ex_state_two 0 (\<lambda>M. M\<lparr>nmaster := 0\<rparr>)"

definition ex_state_two_masters :: "int State" where
  "ex_state_two_masters = upd_mon ex_state_two 0 (\<lambda>M. M\<lparr>nmaster := 2\<rparr>)"

section \<open>Properties of the size hints\<close>

lemmas ex_defs = ex_state_def ex_mon_def ex_client_def ex_cfg_def ex_tile_def ex_float_def
  ex_monocle_def upd_client_def upd_mon_def

lemma updatesizehints_geom:
  "cx (cl (updatesizehints cfg st c) d) = cx (cl st d)"
  "cy (cl (updatesizehints cfg st c) d) = cy (cl st d)"
  "cw (cl (updatesizehints cfg st c) d) = cw (cl st d)"
  "ch (cl (updatesizehints cfg st c) d) = ch (cl st d)"
  by (simp_all add: updatesizehints_def upd_client_def Let_def split: prod.splits)

lemma if_less_max: "(if a < b then b else a) = max a (b::int)"
  by (simp add: max_def)

text \<open>
  Claim C7. For every client and candidate rectangle, \<^verbatim>\<open>applysizehints\<close> raises the width
  and the height to at least 1 and then to at least the bar height (these are the values
  the result carries when the ICCCM block does not run, and the values the ICCCM block
  receives when it does), and the flag it returns is true exactly when one of the final
  x, y, w, h differs from the stored geometry of the client, which the call leaves as
  it was.
\<close>

theorem applysizehints_clamps_and_changed:
  "case applysizehints cfg st c px py pw ph interact of
     ((changed, x1, y1, w1, h1), st1) \<Rightarrow>
       (changed \<longleftrightarrow> (x1 \<noteq> cx (cl st c) \<or> y1 \<noteq> cy (cl st c)
                        \<or> w1 \<noteq> cw (cl st c) \<or> h1 \<noteq> ch (cl st c)))
       \<and> cx (cl st1 c) = cx (cl st c) \<and> cy (cl st1 c) = cy (cl st c)
       \<and> cw (cl st1 c) = cw (cl st c) \<and> ch (cl st1 c) = ch (cl st c)
       \<and> (w1, h1) = (if hints_apply cfg st c
                      then icccm_hints cfg (cl st1 c) (max (max 1 pw) (bh st)) (max (max 1 ph) (bh st))
                      else (max (max 1 pw) (bh st), max (max 1 ph) (bh st)))"
proof (cases "hints_apply cfg st c")
  case True
  then show ?thesis
    unfolding applysizehints_def Let_def if_less_max
    by (simp add: updatesizehints_geom split: prod.splits)
next
  case False
  then show ?thesis
    unfolding applysizehints_def Let_def if_less_max
    by (simp split: prod.splits)
qed

text \<open>Witness: a tiled client of the example state asked for a 5x0 rectangle gets 16x16,
  the bar height, and the flag is set because its stored size is 800x600.\<close>

theorem applysizehints_clamps_and_changed_witness:
  "fst (applysizehints ex_cfg ex_state 2 0 16 5 0 False) = (True, 0, 16, 16, 16)"
  using applysizehints_clamps_and_changed
    [where cfg = ex_cfg and st = ex_state and c = 2 and px = 0 and py = 16 and pw = 5
       and ph = 0 and interact = False]
  by (simp add: applysizehints_def hints_apply_def clamp_position_def WIDTH_def HEIGHT_def
        Let_def ex_defs)

lemma clamp_position_axis:
  "clamp_position st k M interact px py w1 h1 =
     (clamp_axis interact (sw st) (wx M) (ww M) (WIDTH k) (bw k) px w1,
      clamp_axis interact (sh st) (wy M) (wh M) (HEIGHT k) (bw k) py h1)"
  by (simp add: clamp_position_def clamp_axis_def Let_def)

lemma clamp_axis_idem:
  assumes "0 \<le> slen" "0 < len" "0 < outer" "l \<le> l'"
  shows "clamp_axis interact slen org len outer' b (clamp_axis interact slen org len outer b p l) l'
           = clamp_axis interact slen org len outer b p l"
  using assms by (auto simp: clamp_axis_def Let_def)

lemma applysizehints_nohints:
  "\<not> hints_apply cfg st c \<Longrightarrow>
   applysizehints cfg st c px py pw ph interact =
     (let k = cl st c; M = mn st (mon k);
          x2 = clamp_axis interact (sw st) (wx M) (ww M) (WIDTH k) (bw k) px (max 1 pw);
          y2 = clamp_axis interact (sh st) (wy M) (wh M) (HEIGHT k) (bw k) py (max 1 ph);
          w2 = max (max 1 pw) (bh st); h2 = max (max 1 ph) (bh st)
      in ((x2 \<noteq> cx k \<or> y2 \<noteq> cy k \<or> w2 \<noteq> cw k \<or> h2 \<noteq> ch k, x2, y2, w2, h2), st))"
  unfolding applysizehints_def Let_def if_less_max clamp_position_axis
  by simp

text \<open>
  Claim C8 as stated fails: client 1 of \<open>ex_state_maxw\<close> floats and has \<^verbatim>\<open>maxw = 100\<close>. Asked
  for (-500, 16, 1000, 500) the first call keeps x = -500, since -500 + 1000 reaches into
  the working area, and cuts the width to 100. With the geometry stored, the second call on
  (-500, 16, 100, 500) finds -500 + 100 left of the working area, moves x to 0 and
  returns \<^verbatim>\<open>changed = 1\<close>.
\<close>

theorem applysizehints_not_idempotent:
  "case applysizehints ex_cfg ex_state_maxw 1 (- 500) 16 1000 500 False of
     ((changed1, x1, y1, w1, h1), st1) \<Rightarrow>
       (x1, y1, w1, h1) = (- 500, 16, 100, 500) \<and>
       fst (applysizehints ex_cfg
              (upd_client st1 1 (\<lambda>k. k\<lparr>cx := x1, cy := y1, cw := w1, ch := h1\<rparr>))
              1 x1 y1 w1 h1 False) = (True, 0, 16, 100, 500)"
  by (simp add: applysizehints_def hints_apply_def clamp_position_def icccm_hints_def
        WIDTH_def HEIGHT_def Let_def ex_state_maxw_def ex_defs)

text \<open>
  Claim C8, amended. When the ICCCM block does not run (\<^verbatim>\<open>resizehints\<close> is off and the
  client is tiled under an arranger), the screen has non-negative size, the working area
  of the monitor has positive size and the stored outer size of the client is positive,
  \<^verbatim>\<open>applysizehints\<close> is idempotent: applied to its own output, with the geometry of the
  client set to that output, it returns the same rectangle and \<^verbatim>\<open>changed = 0\<close>.
\<close>

theorem applysizehints_idempotent_without_hints:
  assumes nh: "\<not> hints_apply cfg st c"
    and scr: "0 \<le> sw st" "0 \<le> sh st"
    and area: "0 < ww (mn st (mon (cl st c)))" "0 < wh (mn st (mon (cl st c)))"
    and outer: "0 < WIDTH (cl st c)" "0 < HEIGHT (cl st c)"
  shows "case applysizehints cfg st c px py pw ph interact of
           ((changed1, x1, y1, w1, h1), st1) \<Rightarrow>
             (let st2 = upd_client st1 c (\<lambda>k. k\<lparr>cx := x1, cy := y1, cw := w1, ch := h1\<rparr>)
              in applysizehints cfg st2 c x1 y1 w1 h1 interact = ((False, x1, y1, w1, h1), st2))"
proof -
  define k where "k = cl st c"
  define M where "M = mn st (mon k)"
  define x2 where "x2 = clamp_axis interact (sw st) (wx M) (ww M) (WIDTH k) (bw k) px (max 1 pw)"
  define y2 where "y2 = clamp_axis interact (sh st) (wy M) (wh M) (HEIGHT k) (bw k) py (max 1 ph)"
  define w2 where "w2 = max (max 1 pw) (bh st)"
  define h2 where "h2 = max (max 1 ph) (bh st)"
  define st2 where "st2 = upd_client st c (\<lambda>k. k\<lparr>cx := x2, cy := y2, cw := w2, ch := h2\<rparr>)"
  have first: "applysizehints cfg st c px py pw ph interact =
      ((x2 \<noteq> cx k \<or> y2 \<noteq> cy k \<or> w2 \<noteq> cw k \<or> h2 \<noteq> ch k, x2, y2, w2, h2), st)"
    using applysizehints_nohints
      [OF nh, where px = px and py = py and pw = pw and ph = ph and interact = interact]
    by (simp add: Let_def k_def M_def x2_def y2_def w2_def h2_def)
  have k2: "cl st2 c = k\<lparr>cx := x2, cy := y2, cw := w2, ch := h2\<rparr>"
    by (simp add: st2_def upd_client_def k_def)
  have m2: "mn st2 = mn st" "sw st2 = sw st" "sh st2 = sh st" "bh st2 = bh st"
    by (simp_all add: st2_def upd_client_def)
  have nh2: "\<not> hints_apply cfg st2 c"
    using nh by (simp add: hints_apply_def k2 m2 k_def)
  have dims: "max 1 w2 = w2" "max 1 h2 = h2" "max 1 pw \<le> w2" "max 1 ph \<le> h2"
    "max w2 (bh st) = w2" "max h2 (bh st) = h2"
    by (simp_all add: w2_def h2_def)
  have x_idem: "clamp_axis interact (sw st) (wx M) (ww M) (WIDTH (cl st2 c)) (bw k) x2 w2 = x2"
    unfolding x2_def
    by (rule clamp_axis_idem) (use scr area outer dims in \<open>simp_all add: M_def k_def\<close>)
  have y_idem: "clamp_axis interact (sh st) (wy M) (wh M) (HEIGHT (cl st2 c)) (bw k) y2 h2 = y2"
    unfolding y2_def
    by (rule clamp_axis_idem) (use scr area outer dims in \<open>simp_all add: M_def k_def\<close>)
  have second: "applysizehints cfg st2 c x2 y2 w2 h2 interact = ((False, x2, y2, w2, h2), st2)"
    using applysizehints_nohints
      [OF nh2, where px = x2 and py = y2 and pw = w2 and ph = h2 and interact = interact] x_idem y_idem
    by (simp add: Let_def k2 m2 dims M_def)
  show ?thesis
    using second by (simp add: first Let_def st2_def)
qed

text \<open>Witness: a tiled client of the example state, asked for (2000, 16, 5, 0), is moved
  to x = 1920 - 804 and raised to 16x16; the second call changes nothing.\<close>

theorem applysizehints_idempotent_without_hints_witness:
  "\<not> hints_apply ex_cfg ex_state 2 \<and>
   fst (applysizehints ex_cfg ex_state 2 2000 16 5 0 False) = (True, 1116, 16, 16, 16) \<and>
   fst (applysizehints ex_cfg
          (upd_client ex_state 2 (\<lambda>k. k\<lparr>cx := 1116, cy := 16, cw := 16, ch := 16\<rparr>))
          2 1116 16 16 16 False) = (False, 1116, 16, 16, 16)"
  using applysizehints_idempotent_without_hints
    [where cfg = ex_cfg and st = ex_state and c = 2 and px = 2000 and py = 16 and pw = 5
       and ph = 0 and interact = False]
  by (simp add: applysizehints_def hints_apply_def clamp_position_def WIDTH_def HEIGHT_def
        Let_def ex_defs)

section \<open>What resizing and arranging leave alone\<close>

lemma frame_eq_refl: "frame_eq st st"
  by (simp add: frame_eq_def)

lemma frame_eq_trans: "frame_eq s1 s2 \<Longrightarrow> frame_eq s2 s3 \<Longrightarrow> frame_eq s1 s3"
  by (simp add: frame_eq_def)

lemma frame_eq_xsend: "frame_eq st (xsend r st)"
  by (simp add: frame_eq_def xsend_def)

lemma frame_eq_xsend': "frame_eq st st' \<Longrightarrow> frame_eq st (xsend r st')"
  by (simp add: frame_eq_def xsend_def)

lemma frame_eq_updatesizehints: "frame_eq st (updatesizehints cfg st c)"
  by (simp add: frame_eq_def updatesizehints_def upd_client_def flagsof_def Let_def
      split: prod.splits)

lemma frame_eq_applysizehints: "frame_eq st (snd (applysizehints cfg st c px py pw ph i))"
  by (simp add: applysizehints_def Let_def frame_eq_refl frame_eq_updatesizehints
      split: prod.splits)

lemma frame_eq_resizeclient: "frame_eq st (resizeclient st c px py pw ph)"
  by (simp add: frame_eq_def resizeclient_def configure_def xsend_def upd_client_def
      flagsof_def Let_def)

lemma frame_eq_resize: "frame_eq st (resize cfg st c px py pw ph i)"
proof -
  obtain r st1 where a: "applysizehints cfg st c px py pw ph i = (r, st1)"
    by (cases "applysizehints cfg st c px py pw ph i")
  have f1: "frame_eq st st1"
    using frame_eq_applysizehints [of st cfg c px py pw ph i] by (simp add: a)
  show ?thesis
    using f1 frame_eq_trans [OF f1 frame_eq_resizeclient]
    by (simp add: resize_def a split: prod.splits)
qed

lemma frame_eq_fields:
  assumes "frame_eq st st'"
  shows "isfullscreen (cl st' c) = isfullscreen (cl st c)"
    and "isfloating (cl st' c) = isfloating (cl st c)"
    and "bw (cl st' c) = bw (cl st c)"
    and "oldbw (cl st' c) = oldbw (cl st c)"
    and "oldstate (cl st' c) = oldstate (cl st c)"
    and "tags (cl st' c) = tags (cl st c)"
    and "mon (cl st' c) = mon (cl st c)"
    and "isminimized (cl st' c) = isminimized (cl st c)"
    and "win (cl st' c) = win (cl st c)"
    and "mn st' = mn st"
    and "mons st' = mons st"
    and "selmon st' = selmon st"
    and "bh st' = bh st"
    and "fonth st' = fonth st"
    and "root st' = root st"
proof -
  have "flagsof (cl st' c) = flagsof (cl st c)"
    using assms by (simp add: frame_eq_def)
  then show "isfullscreen (cl st' c) = isfullscreen (cl st c)"
    and "isfloating (cl st' c) = isfloating (cl st c)"
    and "bw (cl st' c) = bw (cl st c)"
    and "oldbw (cl st' c) = oldbw (cl st c)"
    and "oldstate (cl st' c) = oldstate (cl st c)"
    and "tags (cl st' c) = tags (cl st c)"
    and "mon (cl st' c) = mon (cl st c)"
    and "isminimized (cl st' c) = isminimized (cl st c)"
    and "win (cl st' c) = win (cl st c)"
    by (simp_all add: flagsof_def)
  show "mn st' = mn st" and "mons st' = mons st" and "selmon st' = selmon st"
    and "bh st' = bh st" and "fonth st' = fonth st" and "root st' = root st"
    using assms by (simp_all add: frame_eq_def)
qed

lemma frame_eq_ISVISIBLE: "frame_eq st st' \<Longrightarrow> ISVISIBLE st' c = ISVISIBLE st c"
  by (simp add: ISVISIBLE_def Let_def frame_eq_fields)

lemma frame_eq_nottiled: "frame_eq st st' \<Longrightarrow> nottiled st' c = nottiled st c"
  by (simp add: nottiled_def frame_eq_ISVISIBLE frame_eq_fields)

lemma frame_eq_tile_loop: "frame_eq st (snd (tile_loop cfg m n mwid i myo tyo cs st))"
proof (induction cs arbitrary: i myo tyo st)
  case Nil
  show ?case by (simp add: frame_eq_refl)
next
  case (Cons c cs)
  show ?case
  proof (cases "nottiled st c")
    case True
    then show ?thesis using Cons.IH by simp
  next
    case False
    obtain rx ry rw rh where r: "tile_rect (mn st m) (cl st c) n mwid i myo tyo = (rx, ry, rw, rh)"
      by (cases "tile_rect (mn st m) (cl st c) n mwid i myo tyo") auto
    define st1 where "st1 = resize cfg st c rx ry rw rh False"
    have f1: "frame_eq st st1"
      by (simp add: st1_def frame_eq_resize)
    show ?thesis
      using False frame_eq_trans [OF f1 Cons.IH [where st = st1]]
      by (simp add: r Let_def st1_def case_prod_beta)
  qed
qed

lemma frame_eq_tile: "frame_eq st (tile cfg st m)"
  by (simp add: tile_def tile_run_def Let_def frame_eq_refl frame_eq_tile_loop)

lemma frame_eq_monocle_loop: "frame_eq st (monocle_loop cfg m cs st)"
proof (induction cs arbitrary: st)
  case Nil
  show ?case by (simp add: frame_eq_refl)
next
  case (Cons c cs)
  show ?case
    using Cons.IH frame_eq_trans [OF frame_eq_resize Cons.IH]
    by (simp add: Let_def)
qed

lemma frame_eq_monocle: "frame_eq st (monocle cfg st m)"
  by (simp add: monocle_def frame_eq_monocle_loop)

lemma frame_eq_showhide: "frame_eq st (showhide cfg cs st)"
proof (induction cs arbitrary: st)
  case Nil
  show ?case by (simp add: frame_eq_refl)
next
  case (Cons c cs)
  have a: "frame_eq st (xsend r st)" for r
    by (rule frame_eq_xsend)
  have b: "frame_eq st (resize cfg (xsend r st) c px py pw ph False)" for r px py pw ph
    by (rule frame_eq_trans [OF a frame_eq_resize])
  show ?case
    using frame_eq_trans [OF a Cons.IH] frame_eq_trans [OF b Cons.IH]
      frame_eq_xsend' [OF Cons.IH]
    by (simp add: Let_def)
qed

lemma frame_eq_restack_loop: "frame_eq st (restack_loop sib cs st)"
proof (induction cs arbitrary: sib st)
  case Nil
  show ?case by (simp add: frame_eq_refl)
next
  case (Cons c cs)
  show ?case
    using Cons.IH frame_eq_trans [OF frame_eq_xsend Cons.IH]
    by simp
qed

lemma frame_eq_restack_loop_xsend: "frame_eq st (restack_loop sib cs (xsend r st))"
  by (rule frame_eq_trans [OF frame_eq_xsend frame_eq_restack_loop])

lemma frame_eq_restack: "frame_eq st (restack st m)"
  by (simp add: restack_def Let_def frame_eq_refl frame_eq_xsend frame_eq_restack_loop
      frame_eq_restack_loop_xsend split: option.splits)

lemma frame_eq_arrangemon: "frame_eq st (arrangemon cfg st m)"
  by (simp add: arrangemon_def frame_eq_refl frame_eq_tile frame_eq_monocle
      split: option.splits arranger.splits)

lemma frame_eq_fold:
  assumes "\<And>m s. frame_eq s (f m s)"
  shows "frame_eq st (fold f ms st)"
proof (induction ms arbitrary: st)
  case Nil
  show ?case by (simp add: frame_eq_refl)
next
  case (Cons m ms)
  show ?case
    using frame_eq_trans [OF assms Cons.IH] by simp
qed

lemma frame_eq_arrange: "frame_eq st (arrange cfg st mo)"
proof (cases mo)
  case None
  have a: "frame_eq st (fold (\<lambda>m s. showhide cfg (stack (mn s m)) s) (mons st) st)"
    by (rule frame_eq_fold) (rule frame_eq_showhide)
  have b: "frame_eq s (fold (\<lambda>m s. arrangemon cfg s m) ms s)" for s ms
    by (rule frame_eq_fold) (rule frame_eq_arrangemon)
  show ?thesis
    using frame_eq_trans [OF a b] by (simp add: arrange_def None Let_def)
next
  case (Some m)
  show ?thesis
    using frame_eq_trans [OF frame_eq_showhide frame_eq_trans [OF frame_eq_arrangemon frame_eq_restack]]
    by (simp add: arrange_def Some)
qed

lemma frame_eq_strip_loop: "frame_eq st (strip_loop cfg c hs px ds st)"
proof (induction ds arbitrary: px st)
  case Nil
  show ?case by (simp add: frame_eq_refl)
next
  case (Cons d ds)
  show ?case
    using Cons.IH frame_eq_trans [OF frame_eq_resize Cons.IH]
    by simp
qed

section \<open>The fullscreen invariant\<close>

lemma frame_eq_fs_ok: "frame_eq st st' \<Longrightarrow> fs_ok (cl st' d) = fs_ok (cl st d)"
  by (simp add: fs_ok_def frame_eq_fields)

lemma fs_step_frame:
  assumes "mn s = mn st" "mons s = mons st" "\<And>d. fs_ok (cl st d) \<Longrightarrow> fs_ok (cl s d)"
    and "frame_eq s st'"
  shows "fs_step st st'"
  using assms by (simp add: fs_step_def frame_eq_fs_ok frame_eq_fields)

lemma fs_step_inv: "fs_step st st' \<Longrightarrow> fullscreen_inv st \<Longrightarrow> fullscreen_inv st'"
  by (simp add: fs_step_def fullscreen_inv_def managed_def)

lemma frame_eq_upd_client:
  "flagsof (f (cl st c)) = flagsof (cl st c) \<Longrightarrow> frame_eq st (upd_client st c f)"
  by (simp add: frame_eq_def upd_client_def)

lemma flagsof_cr_store: "flagsof (cr_store M ev k) = flagsof k"
  by (simp add: cr_store_def Let_def flagsof_def)

lemma flagsof_cr_center: "flagsof (cr_center M k) = flagsof k"
  by (simp add: cr_center_def Let_def flagsof_def)

lemma frame_eq_configure: "frame_eq st (configure st c)"
  by (simp add: configure_def Let_def frame_eq_xsend)

lemma configurerequest_frame:
  assumes "wintoclient st (cr_window ev) = Some c" "cr_value_mask ev AND CWBorderWidth = 0"
  shows "frame_eq (upd_client st c (\<lambda>k. k\<lparr>isfloating := True\<rparr>)) (configurerequest st ev)"
proof -
  define st1 where "st1 = upd_client st c (\<lambda>k. k\<lparr>isfloating := True\<rparr>)"
  define M where "M = mn st1 (mon (cl st1 c))"
  define st2 where "st2 = upd_client st1 c (\<lambda>k. cr_center M (cr_store M ev k))"
  define st3 where "st3 = (if cr_value_mask ev AND (CWX OR CWY) \<noteq> 0
                               \<and> cr_value_mask ev AND (CWWidth OR CWHeight) = 0
                            then configure st2 c else st2)"
  have f2: "frame_eq st1 st2"
    unfolding st2_def
    by (rule frame_eq_upd_client) (simp add: flagsof_cr_store flagsof_cr_center)
  have f3: "frame_eq st1 st3"
    using f2 frame_eq_trans [OF f2 frame_eq_configure] by (simp add: st3_def)
  have fl: "isfloating (cl st1 c)"
    by (simp add: st1_def upd_client_def)
  have "configurerequest st ev =
          (if ISVISIBLE st3 c
           then xsend (XMoveResizeWindow (win (cl st3 c)) (cx (cl st3 c)) (cy (cl st3 c))
                         (cw (cl st3 c)) (ch (cl st3 c))) st3
           else st3)"
    using assms fl
    unfolding st3_def st2_def M_def
    by (simp add: configurerequest_def Let_def st1_def)
  then show ?thesis
    using f3 frame_eq_xsend' [OF f3] by (simp add: st1_def)
qed

lemma setfullscreen_fs_step: "fs_step st (setfullscreen cfg st c f)"
proof -
  consider (on) "f \<and> \<not> isfullscreen (cl st c)" | (off) "\<not> f \<and> isfullscreen (cl st c)"
    | (same) "\<not> (f \<and> \<not> isfullscreen (cl st c))" "\<not> (\<not> f \<and> isfullscreen (cl st c))"
    by blast
  then show ?thesis
  proof cases
    case on
    define st2 where "st2 = upd_client (xsend (SetNetWMFullscreen (win (cl st c)) True) st) c
        (\<lambda>k. k\<lparr>isfullscreen := True, oldstate := isfloating k, oldbw := bw k, bw := 0,
                isfloating := True\<rparr>)"
    define M where "M = mn st2 (mon (cl st2 c))"
    define st3 where "st3 = resizeclient st2 c (mx M) (my M) (mw M) (mh M)"
    have res: "setfullscreen cfg st c f = xsend (XRaiseWindow (win (cl st3 c))) st3"
      using on unfolding st3_def M_def st2_def by (simp add: setfullscreen_def Let_def)
    have fr: "frame_eq st2 (setfullscreen cfg st c f)"
      unfolding res st3_def by (rule frame_eq_xsend' [OF frame_eq_resizeclient])
    show ?thesis
      by (rule fs_step_frame [OF _ _ _ fr])
        (simp_all add: st2_def upd_client_def xsend_def fs_ok_def)
  next
    case off
    define st2 where "st2 = upd_client (xsend (SetNetWMFullscreen (win (cl st c)) False) st) c
        (\<lambda>k. k\<lparr>isfullscreen := False, isfloating := oldstate k, bw := oldbw k,
                cx := oldx k, cy := oldy k, cw := oldw k, ch := oldh k\<rparr>)"
    define st3 where "st3 = resizeclient st2 c (cx (cl st2 c)) (cy (cl st2 c)) (cw (cl st2 c)) (ch (cl st2 c))"
    have res: "setfullscreen cfg st c f = arrange cfg st3 (Some (mon (cl st3 c)))"
      using off unfolding st3_def st2_def by (simp add: setfullscreen_def Let_def)
    have fr: "frame_eq st2 (setfullscreen cfg st c f)"
      unfolding res st3_def by (rule frame_eq_trans [OF frame_eq_resizeclient frame_eq_arrange])
    show ?thesis
      by (rule fs_step_frame [OF _ _ _ fr])
        (simp_all add: st2_def upd_client_def xsend_def fs_ok_def)
  next
    case same
    then show ?thesis
      by (auto simp: setfullscreen_def fs_step_def)
  qed
qed

lemma minimize_fs_step: "fs_step st (minimize cfg st co)"
proof (cases co)
  case None
  then show ?thesis by (simp add: minimize_def fs_step_def)
next
  case (Some c)
  show ?thesis
  proof (cases "isminimized (cl st c)")
    case True
    then show ?thesis by (simp add: minimize_def Some fs_step_def)
  next
    case False
    define st1 where "st1 = upd_client st c (\<lambda>k. k\<lparr>maximx := cx k, maximy := cy k,
                                                     maximw := cw k, maximh := ch k\<rparr>)"
    define st2 where "st2 = upd_client st1 c (\<lambda>k. k\<lparr>isminimized := True, isfloating := True,
                                                     isfullscreen := False\<rparr>)"
    define st3 where "st3 = strip_loop cfg c 20 (mx (mn st1 (mon (cl st1 c))))
                              (clients (mn st1 (mon (cl st1 c)))) st2"
    define st4 where "st4 = upd_client st3 c (\<lambda>k. k\<lparr>isfixed := True\<rparr>)"
    have res: "minimize cfg st co = arrange cfg st4 (Some (mon (cl st4 c)))"
      using False unfolding st4_def st3_def st2_def st1_def
      by (simp add: minimize_def Some Let_def)
    have f3: "frame_eq st2 st3"
      unfolding st3_def by (rule frame_eq_strip_loop)
    have f4: "frame_eq st3 st4"
      unfolding st4_def by (rule frame_eq_upd_client) (simp add: flagsof_def)
    have fr: "frame_eq st2 (minimize cfg st co)"
      unfolding res by (rule frame_eq_trans [OF f3 frame_eq_trans [OF f4 frame_eq_arrange]])
    show ?thesis
      by (rule fs_step_frame [OF _ _ _ fr])
        (simp_all add: st2_def st1_def upd_client_def fs_ok_def)
  qed
qed

lemma togglefloating_fs_step: "fs_step st (togglefloating cfg st)"
proof (cases "sel (mn st (selmon st))")
  case None
  then show ?thesis by (simp add: togglefloating_def fs_step_def)
next
  case (Some s)
  show ?thesis
  proof (cases "isfullscreen (cl st s)")
    case True
    then show ?thesis by (simp add: togglefloating_def Some fs_step_def)
  next
    case False
    define st1 where "st1 = upd_client st s (\<lambda>k. k\<lparr>isfloating := (\<not> isfloating k \<or> isfixed k)\<rparr>)"
    define st2 where "st2 = (if isfloating (cl st1 s)
        then resize cfg st1 s (cx (cl st1 s)) (cy (cl st1 s)) (cw (cl st1 s)) (ch (cl st1 s)) False
        else st1)"
    have res: "togglefloating cfg st = arrange cfg st2 (Some (selmon st2))"
      using False unfolding st2_def st1_def
      by (simp add: togglefloating_def Some Let_def)
    have f2: "frame_eq st1 st2"
      by (simp add: st2_def frame_eq_refl frame_eq_resize)
    have fr: "frame_eq st1 (togglefloating cfg st)"
      unfolding res by (rule frame_eq_trans [OF f2 frame_eq_arrange])
    show ?thesis
      by (rule fs_step_frame [OF _ _ _ fr])
        (use False in \<open>simp_all add: st1_def upd_client_def fs_ok_def\<close>)
  qed
qed

lemma configurerequest_fs_step:
  assumes "cr_value_mask ev AND CWBorderWidth = 0 \<or> cr_border_width ev = 0
           \<or> (\<forall>c. wintoclient st (cr_window ev) = Some c \<longrightarrow> \<not> isfullscreen (cl st c))"
  shows "fs_step st (configurerequest st ev)"
proof (cases "wintoclient st (cr_window ev)")
  case None
  then show ?thesis
    by (simp add: configurerequest_def xsend_def fs_step_def)
next
  case (Some c)
  show ?thesis
  proof (cases "cr_value_mask ev AND CWBorderWidth = 0")
    case True
    show ?thesis
      by (rule fs_step_frame [OF _ _ _ configurerequest_frame [OF Some True]])
        (auto simp: upd_client_def fs_ok_def)
  next
    case False
    then show ?thesis
      using assms by (auto simp: configurerequest_def Some Let_def upd_client_def fs_ok_def fs_step_def)
  qed
qed

text \<open>
  Claim C2, amended. If every managed client satisfies "fullscreen implies floating and
  border width 0", it still does after \<^verbatim>\<open>setfullscreen\<close>, after \<^verbatim>\<open>minimize\<close>, after
  \<^verbatim>\<open>togglefloating\<close>, and after a \<^verbatim>\<open>ConfigureRequest\<close> whose value mask does not name the
  border width, or that asks for border width 0, or whose window is not a fullscreen
  client.
\<close>

theorem fullscreen_invariant_preserved:
  assumes "fullscreen_inv st"
  shows "fullscreen_inv (setfullscreen cfg st c f)
       \<and> fullscreen_inv (minimize cfg st co)
       \<and> fullscreen_inv (togglefloating cfg st)
       \<and> (cr_value_mask ev AND CWBorderWidth = 0 \<or> cr_border_width ev = 0
            \<or> (\<forall>c. wintoclient st (cr_window ev) = Some c \<longrightarrow> \<not> isfullscreen (cl st c))
          \<longrightarrow> fullscreen_inv (configurerequest st ev))"
proof (intro conjI impI)
  show "fullscreen_inv (setfullscreen cfg st c f)"
    by (rule fs_step_inv [OF setfullscreen_fs_step assms])
  show "fullscreen_inv (minimize cfg st co)"
    by (rule fs_step_inv [OF minimize_fs_step assms])
  show "fullscreen_inv (togglefloating cfg st)"
    by (rule fs_step_inv [OF togglefloating_fs_step assms])
  show "fullscreen_inv (configurerequest st ev)"
    if "cr_value_mask ev AND CWBorderWidth = 0 \<or> cr_border_width ev = 0
          \<or> (\<forall>c. wintoclient st (cr_window ev) = Some c \<longrightarrow> \<not> isfullscreen (cl st c))"
    by (rule fs_step_inv [OF configurerequest_fs_step [OF that] assms])
qed

lemma wintoclient_ex_fs: "wintoclient ex_state_fs 101 = Some 1"
  by (simp add: wintoclient_def ex_state_fs_def ex_defs)

text \<open>
  Claim C2 as stated fails for \<^verbatim>\<open>configurerequest\<close>: line 685-686 stores the requested border
  width whatever the state of the client. Client 1 of \<open>ex_state_fs\<close> is managed and
  fullscreen with border 0; after the request \<open>ex_border_request\<close> it is still fullscreen and
  has border 5.
\<close>

theorem border_request_breaks_fullscreen_invariant:
  "fullscreen_inv ex_state_fs \<and> managed (configurerequest ex_state_fs ex_border_request) 1
   \<and> isfullscreen (cl (configurerequest ex_state_fs ex_border_request) 1)
   \<and> bw (cl (configurerequest ex_state_fs ex_border_request) 1) = 5
   \<and> \<not> fullscreen_inv (configurerequest ex_state_fs ex_border_request)"
proof -
  have inv: "fullscreen_inv ex_state_fs"
    by (simp add: fullscreen_inv_def managed_def fs_ok_def ex_state_fs_def ex_defs)
  have st': "configurerequest ex_state_fs ex_border_request =
      upd_client (upd_client ex_state_fs 1 (\<lambda>k. k\<lparr>isfloating := True\<rparr>)) 1 (\<lambda>k. k\<lparr>bw := 5\<rparr>)"
    by (simp add: configurerequest_def wintoclient_ex_fs [simplified] ex_border_request_def
        CWBorderWidth_def Let_def)
  have m: "managed (configurerequest ex_state_fs ex_border_request) 1"
    unfolding st' by (simp add: managed_def ex_state_fs_def ex_defs)
  have f: "isfullscreen (cl (configurerequest ex_state_fs ex_border_request) 1)"
    unfolding st' by (simp add: ex_state_fs_def ex_defs)
  have b: "bw (cl (configurerequest ex_state_fs ex_border_request) 1) = 5"
    unfolding st' by (simp add: ex_state_fs_def ex_defs)
  have "\<not> fullscreen_inv (configurerequest ex_state_fs ex_border_request)"
    using m f b by (auto simp: fullscreen_inv_def fs_ok_def)
  then show ?thesis
    using inv m f b by simp
qed

text \<open>Witness: the four operations on \<open>ex_state_fs\<close>, where the invariant holds; the request
  \<open>ex_geometry_request\<close> does not name the border width.\<close>

theorem fullscreen_invariant_preserved_witness:
  "fullscreen_inv ex_state_fs
   \<and> fullscreen_inv (setfullscreen ex_cfg ex_state_fs 1 False)
   \<and> fullscreen_inv (minimize ex_cfg ex_state_fs (Some 1))
   \<and> fullscreen_inv (togglefloating ex_cfg ex_state_fs)
   \<and> fullscreen_inv (configurerequest ex_state_fs ex_geometry_request)"
proof -
  have inv: "fullscreen_inv ex_state_fs"
    by (simp add: fullscreen_inv_def managed_def fs_ok_def ex_state_fs_def ex_defs)
  have mask: "cr_value_mask ex_geometry_request AND CWBorderWidth = 0"
    by (simp add: ex_geometry_request_def CWBorderWidth_def)
  show ?thesis
    using inv mask
      fullscreen_invariant_preserved [OF inv, where cfg = ex_cfg and c = 1 and f = False
        and co = "Some 1" and ev = ex_geometry_request]
    by simp
qed

section \<open>Configure requests\<close>

lemma cr_store_size:
  "cw (cr_store M ev k) = (if cr_value_mask ev AND CWWidth \<noteq> 0 then cr_width ev else cw k)"
  "ch (cr_store M ev k) = (if cr_value_mask ev AND CWHeight \<noteq> 0 then cr_height ev else ch k)"
  "isfloating (cr_store M ev k) = isfloating k"
  "bw (cr_store M ev k) = bw k"
  "win (cr_store M ev k) = win k"
  by (simp_all add: cr_store_def Let_def)

lemma cr_store_pos:
  "cx (cr_store M ev k) = (if cr_value_mask ev AND CWX \<noteq> 0 then mx M + cr_x ev else cx k)"
  "cy (cr_store M ev k) = (if cr_value_mask ev AND CWY \<noteq> 0 then my M + cr_y ev else cy k)"
  by (simp_all add: cr_store_def Let_def)

lemma cr_center_size:
  "cw (cr_center M k) = cw k" "ch (cr_center M k) = ch k"
  "isfloating (cr_center M k) = isfloating k" "bw (cr_center M k) = bw k"
  "win (cr_center M k) = win k"
  by (simp_all add: cr_center_def Let_def)

lemma cr_center_pos:
  "cx (cr_center M k) = (if cx k + cw k > mx M + mw M \<and> isfloating k
                          then mx M + (c_div (mw M) 2 - c_div (WIDTH k) 2) else cx k)"
  "cy (cr_center M k) = (if cy k + ch k > my M + mh M \<and> isfloating k
                          then my M + (c_div (mh M) 2 - c_div (HEIGHT k) 2) else cy k)"
  by (auto simp: cr_center_def Let_def HEIGHT_def)

text \<open>
  Claim C1, amended. For every \<^verbatim>\<open>ConfigureRequest\<close> on a managed client whose value mask does
  not name the border width, tiled or not: the client is floating afterwards and keeps
  its border; the width and the height named in the mask are stored; the position named
  in the mask is stored relative to the origin of the monitor, and replaced by the
  centred position where the window would reach past the right or the bottom edge of the
  monitor; a synthetic \<^verbatim>\<open>ConfigureNotify\<close> with the new geometry is sent exactly when the mask
  names a position and no size; a visible client is moved and resized on the server.
\<close>

theorem configurerequest_managed:
  assumes man: "wintoclient st (cr_window ev) = Some c"
    and nob: "cr_value_mask ev AND CWBorderWidth = 0"
  shows "let st' = configurerequest st ev; k = cl st c; k' = cl st' c; M = mn st (mon k);
             vm = cr_value_mask ev
         in isfloating k' \<and> bw k' = bw k
            \<and> cw k' = (if vm AND CWWidth \<noteq> 0 then cr_width ev else cw k)
            \<and> ch k' = (if vm AND CWHeight \<noteq> 0 then cr_height ev else ch k)
            \<and> cx k' = (let px = (if vm AND CWX \<noteq> 0 then mx M + cr_x ev else cx k)
                       in if px + cw k' > mx M + mw M
                          then mx M + (c_div (mw M) 2 - c_div (cw k' + 2 * bw k) 2) else px)
            \<and> cy k' = (let py = (if vm AND CWY \<noteq> 0 then my M + cr_y ev else cy k)
                       in if py + ch k' > my M + mh M
                          then my M + (c_div (mh M) 2 - c_div (ch k' + 2 * bw k) 2) else py)
            \<and> xout st' = xout st
                 @ (if vm AND (CWX OR CWY) \<noteq> 0 \<and> vm AND (CWWidth OR CWHeight) = 0
                    then [SendConfigureNotify (win k) (cx k') (cy k') (cw k') (ch k') (bw k)]
                    else [])
                 @ (if ISVISIBLE st c
                    then [XMoveResizeWindow (win k) (cx k') (cy k') (cw k') (ch k')] else [])"
proof -
  define st1 where "st1 = upd_client st c (\<lambda>k. k\<lparr>isfloating := True\<rparr>)"
  define M where "M = mn st (mon (cl st c))"
  define k2 where "k2 = cr_center M (cr_store M ev ((cl st c)\<lparr>isfloating := True\<rparr>))"
  define st2 where "st2 = upd_client st1 c (\<lambda>k. cr_center M (cr_store M ev k))"
  define posonly where "posonly = (cr_value_mask ev AND (CWX OR CWY) \<noteq> 0
                               \<and> cr_value_mask ev AND (CWWidth OR CWHeight) = 0)"
  define st3 where "st3 = (if posonly then configure st2 c else st2)"
  have M1: "mn st1 (mon (cl st1 c)) = M"
    by (simp add: st1_def M_def upd_client_def)
  have fl: "isfloating (cl st1 c)"
    by (simp add: st1_def upd_client_def)
  have res: "configurerequest st ev =
          (if ISVISIBLE st3 c
           then xsend (XMoveResizeWindow (win (cl st3 c)) (cx (cl st3 c)) (cy (cl st3 c))
                         (cw (cl st3 c)) (ch (cl st3 c))) st3
           else st3)"
    using man nob fl M1
    unfolding st3_def posonly_def st2_def
    by (simp add: configurerequest_def Let_def st1_def [symmetric])
  have c2: "cl st2 c = k2"
    by (simp add: st2_def st1_def k2_def upd_client_def)
  have x2: "xout st2 = xout st"
    by (simp add: st2_def st1_def upd_client_def)
  have c3: "cl st3 c = k2"
    by (simp add: st3_def configure_def xsend_def Let_def c2)
  have x3: "xout st3 = xout st @ (if posonly
              then [SendConfigureNotify (win k2) (cx k2) (cy k2) (cw k2) (ch k2) (bw k2)] else [])"
    by (simp add: st3_def configure_def xsend_def Let_def c2 x2)
  have vis: "ISVISIBLE st3 c = ISVISIBLE st c"
    by (simp add: ISVISIBLE_def Let_def c3 k2_def cr_center_def cr_store_def st3_def st2_def
        st1_def configure_def xsend_def upd_client_def)
  have c': "cl (configurerequest st ev) c = k2"
    by (simp add: res xsend_def c3)
  have x': "xout (configurerequest st ev) = xout st
      @ (if posonly then [SendConfigureNotify (win k2) (cx k2) (cy k2) (cw k2) (ch k2) (bw k2)] else [])
      @ (if ISVISIBLE st c then [XMoveResizeWindow (win k2) (cx k2) (cy k2) (cw k2) (ch k2)] else [])"
    by (simp add: res vis xsend_def c3 x3)
  have k2f: "isfloating k2" "bw k2 = bw (cl st c)" "win k2 = win (cl st c)"
    "cw k2 = (if cr_value_mask ev AND CWWidth \<noteq> 0 then cr_width ev else cw (cl st c))"
    "ch k2 = (if cr_value_mask ev AND CWHeight \<noteq> 0 then cr_height ev else ch (cl st c))"
    by (simp_all add: k2_def cr_center_size cr_store_size)
  have k2x: "cx k2 = (let px = (if cr_value_mask ev AND CWX \<noteq> 0 then mx M + cr_x ev else cx (cl st c))
                       in if px + cw k2 > mx M + mw M
                          then mx M + (c_div (mw M) 2 - c_div (cw k2 + 2 * bw (cl st c)) 2) else px)"
    by (simp add: k2_def cr_center_pos cr_center_size cr_store_pos cr_store_size WIDTH_def Let_def)
  have k2y: "cy k2 = (let py = (if cr_value_mask ev AND CWY \<noteq> 0 then my M + cr_y ev else cy (cl st c))
                       in if py + ch k2 > my M + mh M
                          then my M + (c_div (mh M) 2 - c_div (ch k2 + 2 * bw (cl st c)) 2) else py)"
    by (simp add: k2_def cr_center_pos cr_center_size cr_store_pos cr_store_size HEIGHT_def Let_def)
  show ?thesis
    unfolding Let_def c' x' M_def [symmetric] posonly_def [symmetric]
    using k2f k2x k2y by (simp add: Let_def)
qed


lemma wintoclient_ex_tiled: "wintoclient ex_state_tiled 101 = Some 1"
  by (simp add: wintoclient_def ex_state_tiled_def ex_defs)

text \<open>
  Claim C1 as stated fails: client 1 of \<open>ex_state_tiled\<close> is managed and tiled, its monitor
  has the tile arranger and the request \<open>ex_geometry_request\<close> names x, y, width and height
  only. Line 684 makes the client floating, so the request is applied: the stored
  geometry becomes (100, 200, 800, 600) and the only request to the server is the
  \<^verbatim>\<open>XMoveResizeWindow\<close>; no \<^verbatim>\<open>ConfigureNotify\<close> is sent.
\<close>

theorem configurerequest_tiled_not_denied:
  "wintoclient ex_state_tiled (cr_window ex_geometry_request) = Some 1
   \<and> \<not> isfloating (cl ex_state_tiled 1)
   \<and> lt_arrange (lt (mn ex_state_tiled 0) (sellt (mn ex_state_tiled 0))) = Some Tile
   \<and> cr_value_mask ex_geometry_request AND CWBorderWidth = 0
   \<and> (cx (cl ex_state_tiled 1), cy (cl ex_state_tiled 1), cw (cl ex_state_tiled 1),
       ch (cl ex_state_tiled 1)) = (0, 16, 1916, 1060)
   \<and> isfloating (cl (configurerequest ex_state_tiled ex_geometry_request) 1)
   \<and> (cx (cl (configurerequest ex_state_tiled ex_geometry_request) 1),
       cy (cl (configurerequest ex_state_tiled ex_geometry_request) 1),
       cw (cl (configurerequest ex_state_tiled ex_geometry_request) 1),
       ch (cl (configurerequest ex_state_tiled ex_geometry_request) 1)) = (100, 200, 800, 600)
   \<and> xout (configurerequest ex_state_tiled ex_geometry_request)
       = [XMoveResizeWindow 101 100 200 800 600]"
proof -
  have w: "wintoclient ex_state_tiled (cr_window ex_geometry_request) = Some 1"
    by (simp add: ex_geometry_request_def wintoclient_ex_tiled)
  have pre: "\<not> isfloating (cl ex_state_tiled 1)"
    "lt_arrange (lt (mn ex_state_tiled 0) (sellt (mn ex_state_tiled 0))) = Some Tile"
    "cr_value_mask ex_geometry_request AND CWBorderWidth = 0"
    "(cx (cl ex_state_tiled 1), cy (cl ex_state_tiled 1), cw (cl ex_state_tiled 1),
       ch (cl ex_state_tiled 1)) = (0, 16, 1916, 1060)"
    by (simp_all add: ex_state_tiled_def ex_defs ex_geometry_request_def CWBorderWidth_def)
  define st' where "st' = configurerequest ex_state_tiled ex_geometry_request"
  have post: "isfloating (cl st' 1)"
    "(cx (cl st' 1), cy (cl st' 1), cw (cl st' 1), ch (cl st' 1)) = (100, 200, 800, 600)"
    "xout st' = [XMoveResizeWindow 101 100 200 800 600]"
    unfolding st'_def configurerequest_def w
    by (simp_all add: Let_def ex_geometry_request_def cr_store_def cr_center_def configure_def
        xsend_def ISVISIBLE_def CWX_def CWY_def CWWidth_def CWHeight_def CWBorderWidth_def
        ex_state_tiled_def ex_defs)
  show ?thesis
    using w pre post unfolding st'_def by simp
qed

text \<open>Witness: the request \<open>ex_move_request\<close> for (50, 60) on the same client. The window
  would reach past both edges, so it is centred to (0, 8), and the notify is sent.\<close>

theorem configurerequest_managed_witness:
  "wintoclient ex_state_tiled (cr_window ex_move_request) = Some 1
   \<and> cr_value_mask ex_move_request AND CWBorderWidth = 0
   \<and> isfloating (cl (configurerequest ex_state_tiled ex_move_request) 1)
   \<and> cx (cl (configurerequest ex_state_tiled ex_move_request) 1) = 0
   \<and> cy (cl (configurerequest ex_state_tiled ex_move_request) 1) = 8
   \<and> xout (configurerequest ex_state_tiled ex_move_request)
       = [SendConfigureNotify 101 0 8 1916 1060 2, XMoveResizeWindow 101 0 8 1916 1060]"
proof -
  have w: "wintoclient ex_state_tiled (cr_window ex_move_request) = Some 1"
    by (simp add: ex_move_request_def wintoclient_ex_tiled)
  have nob: "cr_value_mask ex_move_request AND CWBorderWidth = 0"
    by (simp add: ex_move_request_def CWBorderWidth_def)
  have vals: "cl ex_state_tiled (Suc 0)
                = ex_client\<lparr>win := 101, cx := 0, cy := 16, cw := 1916, ch := 1060\<rparr>"
    "mn ex_state_tiled 0 = ex_mon\<lparr>num := 0, mx := 0, wx := 0, barwin := 50,
       clients := [1], stack := [1], sel := Some 1\<rparr>"
    "xout ex_state_tiled = []" "ISVISIBLE ex_state_tiled (Suc 0)"
    by (simp_all add: ex_state_tiled_def ex_defs ISVISIBLE_def)
  show ?thesis
    using configurerequest_managed [OF w nob] w nob
    by (simp add: Let_def vals ex_move_request_def ex_client_def ex_mon_def c_div_def
        CWX_def CWY_def CWWidth_def CWHeight_def)
qed

section \<open>Tagsets\<close>

lemma same_tags_refl: "same_tags st st"
  by (simp add: same_tags_def)

lemma same_tags_trans: "same_tags s1 s2 \<Longrightarrow> same_tags s2 s3 \<Longrightarrow> same_tags s1 s3"
  by (simp add: same_tags_def)

lemma same_tags_mn: "mn st' = mn st \<Longrightarrow> same_tags st st'"
  by (simp add: same_tags_def)

lemma same_tags_frame: "frame_eq st st' \<Longrightarrow> same_tags st st'"
  by (simp add: same_tags_def frame_eq_fields)

lemma same_tags_upd_mon:
  "tagset (f (mn st m)) = tagset (mn st m) \<Longrightarrow> seltags (f (mn st m)) = seltags (mn st m)
   \<Longrightarrow> same_tags st (upd_mon st m f)"
  by (simp add: same_tags_def upd_mon_def)

lemma same_tags_detachstack: "same_tags st (detachstack st c)"
proof -
  define st1 where "st1 = upd_mon st (mon (cl st c)) (\<lambda>M. M\<lparr>stack := remove1 c (stack M)\<rparr>)"
  have a: "same_tags st st1"
    unfolding st1_def by (rule same_tags_upd_mon) simp_all
  have b: "same_tags st1 (upd_mon st1 m (\<lambda>M. M\<lparr>sel := g M\<rparr>))" for m g
    by (rule same_tags_upd_mon) simp_all
  show ?thesis
  proof (cases "sel (mn st1 (mon (cl st c))) = Some c")
    case True
    then show ?thesis
      using same_tags_trans [OF a b] by (simp add: detachstack_def Let_def st1_def [symmetric])
  next
    case False
    then show ?thesis
      using a by (simp add: detachstack_def Let_def st1_def [symmetric])
  qed
qed

lemma same_tags_attachstack: "same_tags st (attachstack st c)"
  unfolding attachstack_def by (rule same_tags_upd_mon) simp_all

lemma focus_unfocus_step:
  "(case so of None \<Rightarrow> st | Some s \<Rightarrow> if Some s \<noteq> c then unfocus st (Some s) False else st) = st"
  by (simp add: unfocus_def split: option.splits)

lemma same_tags_focus: "same_tags st (focus st co)"
proof -
  define c where "c = (case co of
                 None \<Rightarrow> find (ISVISIBLE st) (stack (mn st (selmon st)))
               | Some k \<Rightarrow> if \<not> ISVISIBLE st k
                           then find (ISVISIBLE st) (stack (mn st (selmon st))) else Some k)"
  define st2 where "st2 = (case c of
                   None \<Rightarrow> st
                 | Some k \<Rightarrow>
                     (let sa = (if mon (cl st k) \<noteq> selmon st
                                then st\<lparr>selmon := mon (cl st k)\<rparr> else st);
                          sb = (if isurgent (cl sa k) then seturgent sa k False else sa)
                      in attachstack (detachstack sb k) k))"
  have res: "focus st co = upd_mon st2 (selmon st2) (\<lambda>M. M\<lparr>sel := c\<rparr>)"
    unfolding st2_def c_def focus_def Let_def focus_unfocus_step by (rule refl)
  have s2: "same_tags st st2"
  proof (cases c)
    case None
    then show ?thesis by (simp add: st2_def same_tags_refl)
  next
    case (Some k)
    define sa where "sa = (if mon (cl st k) \<noteq> selmon st then st\<lparr>selmon := mon (cl st k)\<rparr> else st)"
    define sb where "sb = (if isurgent (cl sa k) then seturgent sa k False else sa)"
    have "same_tags st sa" by (rule same_tags_mn) (simp add: sa_def)
    moreover have "same_tags sa sb"
      by (rule same_tags_mn) (simp add: sb_def seturgent_def upd_client_def)
    ultimately have "same_tags st sb" by (rule same_tags_trans)
    then have "same_tags st (attachstack (detachstack sb k) k)"
      by (rule same_tags_trans [OF _ same_tags_trans [OF same_tags_detachstack same_tags_attachstack]])
    then show ?thesis
      unfolding st2_def Some sb_def sa_def by (simp only: option.case Let_def)
  qed
  show ?thesis
    unfolding res
    by (rule same_tags_trans [OF s2]) (rule same_tags_upd_mon, simp_all)
qed

lemma same_tags_focus_arrange: "same_tags st (focus_arrange cfg st)"
  unfolding focus_arrange_def Let_def
  by (rule same_tags_trans [OF same_tags_focus same_tags_frame [OF frame_eq_arrange]])

lemma same_tags_ok: "same_tags st st' \<Longrightarrow> tags_ok (mn st' m) = tags_ok (mn st m)"
  by (simp add: same_tags_def tags_ok_def)

lemma xor_one_less_two: "s < 2 \<Longrightarrow> s XOR (1::nat) < 2"
proof -
  assume "s < 2"
  then consider "s = 0" | "s = 1" by linarith
  then show ?thesis by cases simp_all
qed

lemma createmon_tags_ok: "tags_ok (createmon cfg)"
  by (simp add: tags_ok_def createmon_def)


lemma tags_ok_upd_seltags:
  "tags_ok M \<Longrightarrow> tags_ok (M\<lparr>seltags := seltags M XOR 1\<rparr>)"
  using xor_one_less_two [of "seltags M"] by (simp add: tags_ok_def)

lemma tags_ok_upd_tagset:
  "tags_ok M \<Longrightarrow> v \<noteq> 0 \<Longrightarrow> tags_ok (M\<lparr>tagset := (tagset M)(i := v)\<rparr>)"
  by (simp add: tags_ok_def)

lemma tags_ok_upd_mon:
  assumes "\<And>m. tags_ok (mn st m)" "tags_ok (f (mn st m0))"
  shows "tags_ok (mn (upd_mon st m0 f) m)"
  using assms by (simp add: upd_mon_def)

lemma tags_ok_upd_client:
  assumes "\<And>m. tags_ok (mn st m)"
  shows "tags_ok (mn (upd_client st c f) m)"
  using assms by (simp add: upd_client_def)

lemma tags_ok_focus_arrange:
  assumes "\<And>m. tags_ok (mn st m)"
  shows "tags_ok (mn (focus_arrange cfg st) m)"
  using assms by (simp add: same_tags_ok [OF same_tags_focus_arrange])

lemma view_tags_ok:
  assumes ok: "\<And>m. tags_ok (mn st m)"
  shows "tags_ok (mn (view cfg st ui) m)"
proof (cases "ui AND TAGMASK cfg = tagset (mn st (selmon st)) (seltags (mn st (selmon st)))")
  case True
  then show ?thesis using ok by (simp add: view_def)
next
  case False
  define st1 where "st1 = upd_mon st (selmon st) (\<lambda>M. M\<lparr>seltags := seltags M XOR 1\<rparr>)"
  define st2 where "st2 = (if ui AND TAGMASK cfg \<noteq> 0
                       then upd_mon st1 (selmon st1)
                              (\<lambda>M. M\<lparr>tagset := (tagset M)(seltags M := ui AND TAGMASK cfg)\<rparr>)
                       else st1)"
  have res: "view cfg st ui = focus_arrange cfg st2"
    using False unfolding st2_def st1_def by (simp add: view_def Let_def)
  have ok1: "tags_ok (mn st1 m)" for m
    unfolding st1_def by (rule tags_ok_upd_mon [OF ok]) (rule tags_ok_upd_seltags [OF ok])
  have ok2: "tags_ok (mn st2 m)" for m
  proof (cases "ui AND TAGMASK cfg \<noteq> 0")
    case True
    have "tags_ok (mn (upd_mon st1 (selmon st1)
            (\<lambda>M. M\<lparr>tagset := (tagset M)(seltags M := ui AND TAGMASK cfg)\<rparr>)) m)"
      by (rule tags_ok_upd_mon [OF ok1]) (rule tags_ok_upd_tagset [OF ok1 True])
    then show ?thesis by (simp add: st2_def True)
  next
    case False
    then show ?thesis using ok1 by (simp add: st2_def)
  qed
  show ?thesis
    unfolding res by (rule tags_ok_focus_arrange [OF ok2])
qed

lemma toggleview_tags_ok:
  assumes ok: "\<And>m. tags_ok (mn st m)"
  shows "tags_ok (mn (toggleview cfg st ui) m)"
proof -
  define v where "v = tagset (mn st (selmon st)) (seltags (mn st (selmon st))) XOR (ui AND TAGMASK cfg)"
  show ?thesis
  proof (cases "v = 0")
    case True
    then show ?thesis using ok by (simp add: toggleview_def Let_def v_def)
  next
    case False
    have res: "toggleview cfg st ui = focus_arrange cfg
                (upd_mon st (selmon st) (\<lambda>M. M\<lparr>tagset := (tagset M)(seltags M := v)\<rparr>))"
      using False by (simp add: toggleview_def Let_def v_def)
    show ?thesis
      unfolding res
      by (rule tags_ok_focus_arrange, rule tags_ok_upd_mon [OF ok])
        (rule tags_ok_upd_tagset [OF ok False])
  qed
qed

lemma tag_tags_ok:
  assumes ok: "\<And>m. tags_ok (mn st m)"
  shows "tags_ok (mn (tag cfg st ui) m)"
  using ok tags_ok_focus_arrange [OF tags_ok_upd_client [OF ok]]
  by (simp add: tag_def split: option.splits)

lemma toggletag_tags_ok:
  assumes ok: "\<And>m. tags_ok (mn st m)"
  shows "tags_ok (mn (toggletag cfg st ui) m)"
  using ok tags_ok_focus_arrange [OF tags_ok_upd_client [OF ok]]
  by (simp add: toggletag_def Let_def split: option.splits)

lemma tag_reach_tags_ok: "tag_reach cfg st \<Longrightarrow> tags_ok (mn st m)"
proof (induction arbitrary: m rule: tag_reach.induct)
  case (created st)
  then show ?case
    using createmon_tags_ok [of cfg] by (simp add: tags_ok_def)
next
  case (by_view st ui)
  then show ?case by (simp add: view_tags_ok)
next
  case (by_toggleview st ui)
  then show ?case by (simp add: toggleview_tags_ok)
next
  case (by_tag st ui)
  then show ?case by (simp add: tag_tags_ok)
next
  case (by_toggletag st ui)
  then show ?case by (simp add: toggletag_tags_ok)
next
  case (by_other st st')
  then show ?case by (simp add: same_tags_ok)
qed

text \<open>
  Claim C3. The selected tagset of a monitor made by \<^verbatim>\<open>createmon\<close> has a bit set, and so has
  the selected tagset of every monitor in every state reached from freshly created
  monitors by any sequence of \<^verbatim>\<open>view\<close>, \<^verbatim>\<open>toggleview\<close>, \<^verbatim>\<open>tag\<close> and \<^verbatim>\<open>toggletag\<close> (and of steps
  that do not write the tagsets).
\<close>

theorem selected_tagset_nonempty:
  "tagset (createmon cfg) (seltags (createmon cfg)) \<noteq> 0
   \<and> (tag_reach cfg st \<longrightarrow> tagset (mn st m) (seltags (mn st m)) \<noteq> 0)"
proof (intro conjI impI)
  show "tagset (createmon cfg) (seltags (createmon cfg)) \<noteq> 0"
    by (simp add: createmon_def)
  assume "tag_reach cfg st"
  then have "tags_ok (mn st m)" by (rule tag_reach_tags_ok)
  then have "seltags (mn st m) = 0 \<or> seltags (mn st m) = 1" "tagset (mn st m) 0 \<noteq> 0"
    "tagset (mn st m) 1 \<noteq> 0"
    by (auto simp: tags_ok_def)
  then show "tagset (mn st m) (seltags (mn st m)) \<noteq> 0"
    by auto
qed


lemma view_selected:
  assumes nz: "ui AND TAGMASK cfg \<noteq> 0"
  shows "tagset (mn (view cfg st ui) (selmon st)) (seltags (mn (view cfg st ui) (selmon st)))
           = ui AND TAGMASK cfg"
proof (cases "ui AND TAGMASK cfg = tagset (mn st (selmon st)) (seltags (mn st (selmon st)))")
  case True
  then show ?thesis by (simp add: view_def)
next
  case False
  define st2 where "st2 = upd_mon (upd_mon st (selmon st) (\<lambda>M. M\<lparr>seltags := seltags M XOR 1\<rparr>))
      (selmon st) (\<lambda>M. M\<lparr>tagset := (tagset M)(seltags M := ui AND TAGMASK cfg)\<rparr>)"
  have res: "view cfg st ui = focus_arrange cfg st2"
    using False nz unfolding st2_def by (simp add: view_def Let_def upd_mon_def)
  have "same_tags st2 (view cfg st ui)"
    unfolding res by (rule same_tags_focus_arrange)
  then have "tagset (mn (view cfg st ui) (selmon st)) = tagset (mn st2 (selmon st))"
    "seltags (mn (view cfg st ui) (selmon st)) = seltags (mn st2 (selmon st))"
    by (simp_all add: same_tags_def)
  then show ?thesis
    by (simp add: st2_def upd_mon_def)
qed

text \<open>Witness: after \<^verbatim>\<open>view\<close> of tag 3 (mask 4) on the example state the selected tagset of
  monitor 0 is 4.\<close>

theorem selected_tagset_nonempty_witness:
  "tag_reach ex_cfg (view ex_cfg ex_state 4)
   \<and> tagset (mn (view ex_cfg ex_state 4) 0) (seltags (mn (view ex_cfg ex_state 4) 0)) = 4"
proof -
  have "tag_reach ex_cfg ex_state"
    by (rule tag_reach.created) (simp add: ex_defs createmon_def)
  then have r: "tag_reach ex_cfg (view ex_cfg ex_state 4)"
    by (rule tag_reach.by_view)
  have m: "(4 :: u32) AND TAGMASK ex_cfg = 4"
    by (simp add: TAGMASK_def ex_cfg_def)
  have v: "tagset (mn (view ex_cfg ex_state 4) 0) (seltags (mn (view ex_cfg ex_state 4) 0)) = 4"
    using view_selected [of 4 ex_cfg ex_state] by (simp add: m) (simp add: ex_state_def)
  show ?thesis
    using r v selected_tagset_nonempty [of ex_cfg "view ex_cfg ex_state 4" 0] by simp
qed

section \<open>Fullscreen on and off\<close>

lemma setfullscreen_on:
  assumes "\<not> isfullscreen (cl st c)"
  shows "cl (setfullscreen cfg st c True) c =
           (cl st c)\<lparr>isfullscreen := True, oldstate := isfloating (cl st c), oldbw := bw (cl st c),
                      bw := 0, isfloating := True,
                      oldx := cx (cl st c), cx := mx (mn st (mon (cl st c))),
                      oldy := cy (cl st c), cy := my (mn st (mon (cl st c))),
                      oldw := cw (cl st c), cw := mw (mn st (mon (cl st c))),
                      oldh := ch (cl st c), ch := mh (mn st (mon (cl st c)))\<rparr>"
    and "mn (setfullscreen cfg st c True) = mn st"
  using assms
  by (simp_all add: setfullscreen_def Let_def resizeclient_def configure_def xsend_def
      upd_client_def)

lemma setfullscreen_off:
  assumes "isfullscreen (cl st c)"
  shows "\<exists>s. setfullscreen cfg st c False = arrange cfg s (Some (mon (cl st c)))
             \<and> cl s c = (cl st c)\<lparr>isfullscreen := False, isfloating := oldstate (cl st c),
                   bw := oldbw (cl st c), cx := oldx (cl st c), cy := oldy (cl st c),
                   cw := oldw (cl st c), ch := oldh (cl st c),
                   oldx := oldx (cl st c), oldy := oldy (cl st c),
                   oldw := oldw (cl st c), oldh := oldh (cl st c)\<rparr>
             \<and> xout s = xout st @ [SetNetWMFullscreen (win (cl st c)) False,
                   XConfigureWindow (win (cl st c)) (oldx (cl st c)) (oldy (cl st c))
                     (oldw (cl st c)) (oldh (cl st c)) (oldbw (cl st c)),
                   SendConfigureNotify (win (cl st c)) (oldx (cl st c)) (oldy (cl st c))
                     (oldw (cl st c)) (oldh (cl st c)) (oldbw (cl st c))]"
proof -
  define st2 where "st2 = upd_client (xsend (SetNetWMFullscreen (win (cl st c)) False) st) c
        (\<lambda>k. k\<lparr>isfullscreen := False, isfloating := oldstate k, bw := oldbw k,
                cx := oldx k, cy := oldy k, cw := oldw k, ch := oldh k\<rparr>)"
  define st3 where "st3 = resizeclient st2 c (cx (cl st2 c)) (cy (cl st2 c)) (cw (cl st2 c)) (ch (cl st2 c))"
  have res: "setfullscreen cfg st c False = arrange cfg st3 (Some (mon (cl st3 c)))"
    using assms unfolding st3_def st2_def by (simp add: setfullscreen_def Let_def)
  have k3: "cl st3 c = (cl st c)\<lparr>isfullscreen := False, isfloating := oldstate (cl st c),
                   bw := oldbw (cl st c), cx := oldx (cl st c), cy := oldy (cl st c),
                   cw := oldw (cl st c), ch := oldh (cl st c),
                   oldx := oldx (cl st c), oldy := oldy (cl st c),
                   oldw := oldw (cl st c), oldh := oldh (cl st c)\<rparr>"
    by (simp add: st3_def st2_def resizeclient_def configure_def xsend_def upd_client_def Let_def)
  have x3: "xout st3 = xout st @ [SetNetWMFullscreen (win (cl st c)) False,
                   XConfigureWindow (win (cl st c)) (oldx (cl st c)) (oldy (cl st c))
                     (oldw (cl st c)) (oldh (cl st c)) (oldbw (cl st c)),
                   SendConfigureNotify (win (cl st c)) (oldx (cl st c)) (oldy (cl st c))
                     (oldw (cl st c)) (oldh (cl st c)) (oldbw (cl st c))]"
    by (simp add: st3_def st2_def resizeclient_def configure_def xsend_def upd_client_def Let_def)
  have m3: "mon (cl st3 c) = mon (cl st c)"
    by (simp add: k3)
  show ?thesis
    using res k3 x3 m3 by auto
qed

text \<open>
  Claim C4, amended. For a client that is not fullscreen, \<^verbatim>\<open>setfullscreen (c, 1)\<close> sets
  \<^verbatim>\<open>bw = 0\<close>, saves the border in \<^verbatim>\<open>oldbw\<close> and the floating flag in \<^verbatim>\<open>oldstate\<close>, and gives
  the client the output rectangle of its monitor. A following \<^verbatim>\<open>setfullscreen (c, 0)\<close>
  restores the border and the floating flag, for good, and puts the client back on its
  pre-fullscreen rectangle (state \<open>s\<close>, sent to the server with \<^verbatim>\<open>resizeclient\<close>) before it
  calls \<^verbatim>\<open>arrange\<close> on the monitor; the rectangle the call ends with is the one \<^verbatim>\<open>arrange\<close>
  makes of it.
\<close>

theorem setfullscreen_on_off:
  assumes nf: "\<not> isfullscreen (cl st c)"
  shows "let k = cl st c; M = mn st (mon k);
             st1 = setfullscreen cfg st c True; k1 = cl st1 c;
             st2 = setfullscreen cfg st1 c False; k2 = cl st2 c
         in isfullscreen k1 \<and> isfloating k1 \<and> bw k1 = 0
            \<and> oldbw k1 = bw k \<and> oldstate k1 = isfloating k
            \<and> (cx k1, cy k1, cw k1, ch k1) = (mx M, my M, mw M, mh M)
            \<and> \<not> isfullscreen k2 \<and> bw k2 = bw k \<and> isfloating k2 = isfloating k
            \<and> (\<exists>s. st2 = arrange cfg s (Some (mon k))
                    \<and> (cx (cl s c), cy (cl s c), cw (cl s c), ch (cl s c)) = (cx k, cy k, cw k, ch k)
                    \<and> bw (cl s c) = bw k \<and> isfloating (cl s c) = isfloating k
                    \<and> \<not> isfullscreen (cl s c)
                    \<and> xout s = xout st1 @ [SetNetWMFullscreen (win k) False,
                          XConfigureWindow (win k) (cx k) (cy k) (cw k) (ch k) (bw k),
                          SendConfigureNotify (win k) (cx k) (cy k) (cw k) (ch k) (bw k)])"
proof -
  define st1 where "st1 = setfullscreen cfg st c True"
  have k1: "cl st1 c = (cl st c)\<lparr>isfullscreen := True, oldstate := isfloating (cl st c), oldbw := bw (cl st c),
                      bw := 0, isfloating := True,
                      oldx := cx (cl st c), cx := mx (mn st (mon (cl st c))),
                      oldy := cy (cl st c), cy := my (mn st (mon (cl st c))),
                      oldw := cw (cl st c), cw := mw (mn st (mon (cl st c))),
                      oldh := ch (cl st c), ch := mh (mn st (mon (cl st c)))\<rparr>"
    unfolding st1_def by (rule setfullscreen_on(1) [OF nf])
  have fs1: "isfullscreen (cl st1 c)"
    by (simp add: k1)
  obtain s where s: "setfullscreen cfg st1 c False = arrange cfg s (Some (mon (cl st1 c)))"
    "cl s c = (cl st1 c)\<lparr>isfullscreen := False, isfloating := oldstate (cl st1 c),
                   bw := oldbw (cl st1 c), cx := oldx (cl st1 c), cy := oldy (cl st1 c),
                   cw := oldw (cl st1 c), ch := oldh (cl st1 c),
                   oldx := oldx (cl st1 c), oldy := oldy (cl st1 c),
                   oldw := oldw (cl st1 c), oldh := oldh (cl st1 c)\<rparr>"
    "xout s = xout st1 @ [SetNetWMFullscreen (win (cl st1 c)) False,
                   XConfigureWindow (win (cl st1 c)) (oldx (cl st1 c)) (oldy (cl st1 c))
                     (oldw (cl st1 c)) (oldh (cl st1 c)) (oldbw (cl st1 c)),
                   SendConfigureNotify (win (cl st1 c)) (oldx (cl st1 c)) (oldy (cl st1 c))
                     (oldw (cl st1 c)) (oldh (cl st1 c)) (oldbw (cl st1 c))]"
    using setfullscreen_off [OF fs1, of cfg] by blast
  have fr: "frame_eq s (setfullscreen cfg st1 c False)"
    unfolding s(1) by (rule frame_eq_arrange)
  have fin: "isfullscreen (cl (setfullscreen cfg st1 c False) c) = isfullscreen (cl s c)"
    "bw (cl (setfullscreen cfg st1 c False) c) = bw (cl s c)"
    "isfloating (cl (setfullscreen cfg st1 c False) c) = isfloating (cl s c)"
    by (simp_all add: frame_eq_fields [OF fr])
  have ex: "\<exists>s. setfullscreen cfg st1 c False = arrange cfg s (Some (mon (cl st c)))
            \<and> (cx (cl s c), cy (cl s c), cw (cl s c), ch (cl s c))
               = (cx (cl st c), cy (cl st c), cw (cl st c), ch (cl st c))
            \<and> bw (cl s c) = bw (cl st c) \<and> isfloating (cl s c) = isfloating (cl st c)
            \<and> \<not> isfullscreen (cl s c)
            \<and> xout s = xout st1 @ [SetNetWMFullscreen (win (cl st c)) False,
                  XConfigureWindow (win (cl st c)) (cx (cl st c)) (cy (cl st c)) (cw (cl st c))
                    (ch (cl st c)) (bw (cl st c)),
                  SendConfigureNotify (win (cl st c)) (cx (cl st c)) (cy (cl st c)) (cw (cl st c))
                    (ch (cl st c)) (bw (cl st c))]"
    by (rule exI [of _ s]) (use s in \<open>simp add: k1\<close>)
  show ?thesis
    unfolding Let_def st1_def [symmetric]
    using ex fin by (simp add: k1 s(2))
qed


text \<open>
  Claim C4 as stated fails on the rectangle: the managed floating client of
  \<open>ex_state_small\<close> is 5x5. After \<^verbatim>\<open>setfullscreen (c, 1)\<close> and \<^verbatim>\<open>setfullscreen (c, 0)\<close> the
  \<^verbatim>\<open>arrange\<close> at the end of \<^verbatim>\<open>setfullscreen\<close> runs \<^verbatim>\<open>showhide\<close>, whose \<^verbatim>\<open>resize\<close> raises width
  and height to the bar height: the client ends 16x16, not on its pre-fullscreen
  rectangle.
\<close>

theorem setfullscreen_off_rearranges:
  "managed ex_state_small 1 \<and> \<not> isfullscreen (cl ex_state_small 1)
   \<and> (cx (cl ex_state_small 1), cy (cl ex_state_small 1), cw (cl ex_state_small 1),
       ch (cl ex_state_small 1)) = (100, 100, 5, 5)
   \<and> (let st2 = setfullscreen ex_cfg (setfullscreen ex_cfg ex_state_small 1 True) 1 False
      in (cx (cl st2 1), cy (cl st2 1), cw (cl st2 1), ch (cl st2 1)) = (100, 100, 16, 16))"
proof -
  have pre: "managed ex_state_small 1" "\<not> isfullscreen (cl ex_state_small 1)"
    "(cx (cl ex_state_small 1), cy (cl ex_state_small 1), cw (cl ex_state_small 1),
       ch (cl ex_state_small 1)) = (100, 100, 5, 5)"
    by (simp_all add: managed_def ex_state_small_def ex_defs)
  define st1 where "st1 = setfullscreen ex_cfg ex_state_small 1 True"
  have k1: "cl st1 (Suc 0) = ex_client\<lparr>win := 101, isfloating := True, isfullscreen := True,
      oldstate := True, oldbw := 2, bw := 0,
      oldx := 100, oldy := 100, oldw := 5, oldh := 5, cx := 0, cy := 0, cw := 1920, ch := 1080\<rparr>"
    unfolding st1_def
    by (simp add: setfullscreen_def Let_def resizeclient_def configure_def xsend_def
        ex_state_small_def ex_defs)
  have post: "(let st2 = setfullscreen ex_cfg (setfullscreen ex_cfg ex_state_small 1 True) 1 False
      in (cx (cl st2 1), cy (cl st2 1), cw (cl st2 1), ch (cl st2 1)) = (100, 100, 16, 16))"
    by code_simp
  show ?thesis
    using pre post by simp
qed


text \<open>Witness: the tiled client of \<open>ex_state_tiled\<close>; here \<^verbatim>\<open>tile\<close> gives it the rectangle it
  had.\<close>

theorem setfullscreen_on_off_witness:
  "\<not> isfullscreen (cl ex_state_tiled 1)
   \<and> (let st1 = setfullscreen ex_cfg ex_state_tiled 1 True;
          st2 = setfullscreen ex_cfg st1 1 False
      in bw (cl st1 1) = 0 \<and> oldbw (cl st1 1) = 2 \<and> isfloating (cl st1 1)
         \<and> (cx (cl st1 1), cy (cl st1 1), cw (cl st1 1), ch (cl st1 1)) = (0, 0, 1920, 1080)
         \<and> bw (cl st2 1) = 2 \<and> \<not> isfloating (cl st2 1) \<and> \<not> isfullscreen (cl st2 1)
         \<and> (cx (cl st2 1), cy (cl st2 1), cw (cl st2 1), ch (cl st2 1)) = (0, 16, 1916, 1060))"
proof -
  have h: "\<not> isfullscreen (cl ex_state_tiled 1)"
    by (simp add: ex_state_tiled_def ex_defs)
  have ev: "(let st1 = setfullscreen ex_cfg ex_state_tiled 1 True;
          st2 = setfullscreen ex_cfg st1 1 False
      in bw (cl st1 1) = 0 \<and> oldbw (cl st1 1) = 2 \<and> isfloating (cl st1 1)
         \<and> (cx (cl st1 1), cy (cl st1 1), cw (cl st1 1), ch (cl st1 1)) = (0, 0, 1920, 1080)
         \<and> bw (cl st2 1) = 2 \<and> \<not> isfloating (cl st2 1) \<and> \<not> isfullscreen (cl st2 1)
         \<and> (cx (cl st2 1), cy (cl st2 1), cw (cl st2 1), ch (cl st2 1)) = (0, 16, 1916, 1060))"
    by code_simp
  show ?thesis
    using setfullscreen_on_off [OF h, of ex_cfg] h ev by simp
qed

section \<open>Entering a window\<close>

text \<open>
  Claim C10 fails. When no client has the window of the event and the monitor
  \<^verbatim>\<open>wintomon\<close> finds is not the selected one (and the event is not filtered out by line
  866), \<^verbatim>\<open>enternotify\<close> reaches \<^verbatim>\<open>setclientstate (c, NormalState)\<close> with a null \<^verbatim>\<open>c\<close>, and
  \<^verbatim>\<open>setclientstate\<close> reads \<^verbatim>\<open>c->win\<close>.
\<close>

theorem enternotify_null_client:
  assumes "wintoclient st (xc_window ev) = None"
    and "wintomon st (xc_window ev) \<noteq> selmon st"
    and "xc_window ev = root st \<or> (xc_mode ev = NotifyNormal \<and> xc_detail ev \<noteq> NotifyInferior)"
  shows "enternotify st ev = Inl NullDeref"
  using assms by (auto simp: enternotify_def enternotify_tail_def Let_def)

text \<open>Witness: the root window is entered while the pointer is on monitor 1 and monitor 0
  is selected.\<close>

theorem enternotify_null_client_witness:
  "wintoclient ex_state_two_mons (xc_window ex_root_enter) = None
   \<and> wintomon ex_state_two_mons (xc_window ex_root_enter) = 1
   \<and> selmon ex_state_two_mons = 0
   \<and> xc_window ex_root_enter = root ex_state_two_mons
   \<and> enternotify ex_state_two_mons ex_root_enter = Inl NullDeref"
proof -
  have a: "wintoclient ex_state_two_mons (xc_window ex_root_enter) = None"
    by (simp add: wintoclient_def ex_state_two_mons_def ex_root_enter_def ex_defs)
  have b: "wintomon ex_state_two_mons (xc_window ex_root_enter) = 1"
    by (simp add: wintomon_def recttomon_def INTERSECT_def ex_state_two_mons_def
        ex_root_enter_def ex_defs)
  have c: "selmon ex_state_two_mons = 0" "xc_window ex_root_enter = root ex_state_two_mons"
    by (simp_all add: ex_state_two_mons_def ex_root_enter_def ex_defs)
  show ?thesis
    using enternotify_null_client [of ex_state_two_mons ex_root_enter] a b c by simp
qed

text \<open>With a client for the window the handler returns.\<close>

lemma enternotify_with_client:
  "wintoclient st (xc_window ev) = Some c \<Longrightarrow> \<exists>st'. enternotify st ev = Inr st'"
  by (simp add: enternotify_def enternotify_tail_def Let_def)

section \<open>Minimized clients\<close>

text \<open>\<^verbatim>\<open>minimize\<close> lays the minimized clients out as 50x20 strips: the first minimized client
  of \<open>ex_state_two\<close>, and a third one joining the two of \<open>ex_state_minimized\<close>.\<close>

lemma minimize_strips:
  "(let st1 = minimize ex_cfg ex_state_two (Some 2)
    in (cx (cl st1 2), cy (cl st1 2), cw (cl st1 2), ch (cl st1 2)) = (0, 16, 50, 20))"
  by code_simp

text \<open>
  Claim C9 fails in \<^verbatim>\<open>restore\<close>, which lays the remaining minimized clients out with
  \<^verbatim>\<open>resize (d, x, ..., 50, 10, 0)\<close> (dwm.c 2308) where \<^verbatim>\<open>minimize\<close> uses 50, 20 (dwm.c 2289).
  In \<open>ex_state_minimized\<close> clients 1 and 2 are 50x20 strips; after \<^verbatim>\<open>restore\<close> of client 1,
  client 2 is still minimized and is 50x16: the height 10, raised to the bar height 16
  by \<^verbatim>\<open>applysizehints\<close>.
\<close>

theorem restore_strip_height:
  "(let st2 = restore ex_cfg ex_state_minimized (Some 1)
    in isminimized (cl st2 2) \<and> \<not> isminimized (cl st2 1)
       \<and> (cx (cl st2 2), cy (cl st2 2), cw (cl st2 2), ch (cl st2 2)) = (0, 16, 50, 16))"
  by code_simp

section \<open>Rules\<close>

lemma strstr_occurs: "strstr hay needle = occurs_in needle hay"
proof (induction hay)
  case Nil
  show ?case by (auto simp: occurs_in_def)
next
  case (Cons a hay)
  have "occurs_in needle (a # hay) \<longleftrightarrow>
          take (length needle) (a # hay) = needle \<or> occurs_in needle hay"
  proof
    assume "occurs_in needle (a # hay)"
    then obtain ps ss where e: "a # hay = ps @ needle @ ss"
      by (auto simp: occurs_in_def)
    show "take (length needle) (a # hay) = needle \<or> occurs_in needle hay"
    proof (cases ps)
      case Nil
      then show ?thesis using e by simp
    next
      case (Cons p ps')
      then have "hay = ps' @ needle @ ss" using e by simp
      then show ?thesis by (auto simp: occurs_in_def)
    qed
  next
    assume "take (length needle) (a # hay) = needle \<or> occurs_in needle hay"
    then show "occurs_in needle (a # hay)"
    proof
      assume t: "take (length needle) (a # hay) = needle"
      have "a # hay = [] @ take (length needle) (a # hay) @ drop (length needle) (a # hay)"
        by simp
      then show ?thesis unfolding occurs_in_def t by blast
    next
      assume "occurs_in needle hay"
      then obtain ps ss where "hay = ps @ needle @ ss" by (auto simp: occurs_in_def)
      then have "a # hay = (a # ps) @ needle @ ss" by simp
      then show ?thesis unfolding occurs_in_def by blast
    qed
  qed
  then show ?case using Cons.IH by simp
qed

lemma rule_matches_spec: "rule_matches title cls inst r = spec_rule_matches title cls inst r"
  by (simp add: rule_matches_def spec_rule_matches_def strstr_occurs split: option.splits)

lemma applyrules_loop_result:
  "let st' = applyrules_loop cls inst c rs st;
       ms = filter (rule_matches (name (cl st c)) cls inst) rs
   in mn st' = mn st \<and> mons st' = mons st \<and> (\<forall>d. d \<noteq> c \<longrightarrow> cl st' d = cl st d)
      \<and> name (cl st' c) = name (cl st c)
      \<and> tags (cl st' c) = fold (\<lambda>r t. t OR r_tags r) ms (tags (cl st c))
      \<and> isfloating (cl st' c) = (if ms = [] then isfloating (cl st c) else r_isfloating (last ms))
      \<and> mon (cl st' c) = fold (rehome st) ms (mon (cl st c))"
proof (induction rs arbitrary: st)
  case Nil
  show ?case by simp
next
  case (Cons r rs)
  show ?case
  proof (cases "rule_matches (name (cl st c)) cls inst r")
    case False
    then show ?thesis using Cons.IH [of st] by (simp add: Let_def)
  next
    case True
    define st1 where "st1 = upd_client st c (\<lambda>k. k\<lparr>isfloating := r_isfloating r,
                                                 tags := tags k OR r_tags r\<rparr>)"
    define st2 where "st2 = (case find (\<lambda>m. num (mn st1 m) = r_monitor r) (mons st1) of
                         Some m \<Rightarrow> upd_client st1 c (\<lambda>k. k\<lparr>mon := m\<rparr>)
                       | None \<Rightarrow> st1)"
    have step: "applyrules_loop cls inst c (r # rs) st = applyrules_loop cls inst c rs st2"
      using True unfolding st2_def st1_def by (simp add: Let_def)
    have s2: "mn st2 = mn st" "mons st2 = mons st" "\<forall>d. d \<noteq> c \<longrightarrow> cl st2 d = cl st d"
      "name (cl st2 c) = name (cl st c)" "tags (cl st2 c) = tags (cl st c) OR r_tags r"
      "isfloating (cl st2 c) = r_isfloating r" "mon (cl st2 c) = rehome st r (mon (cl st c))"
      by (simp_all add: st2_def st1_def upd_client_def rehome_def split: option.splits)
    have rh: "rehome st2 = rehome st"
      by (simp add: rehome_def s2 fun_eq_iff)
    show ?thesis
      using Cons.IH [of st2] True
      unfolding step by (simp add: Let_def s2 rh)
  qed
qed


text \<open>
  Claim C6. The rules \<^verbatim>\<open>applyrules\<close> applies are the configured rules whose patterns, where
  present, occur in the title, the class and the instance of the client. Their tags are
  or-ed together, the floating flag is that of the last matching rule (false when none
  matches), and each matching rule in turn re-homes the client to the first monitor with
  its index, when there is one. The tags of the client are the collected tags within the
  tag mask, or, when no such bit is set, the selected tagset of the monitor the client
  ended on. Nothing else changes.
\<close>

theorem applyrules_result:
  "let st' = applyrules cfg st c;
       ms = matching_rules cfg st c;
       T = fold (\<lambda>r t. t OR r_tags r) ms 0;
       home = fold (rehome st) ms (mon (cl st c))
   in (\<forall>r. r \<in> set ms \<longleftrightarrow>
            r \<in> set (rules cfg)
            \<and> spec_rule_matches (name (cl st c)) (client_class st c) (client_instance st c) r)
      \<and> tags (cl st' c) = (if T AND TAGMASK cfg \<noteq> 0 then T AND TAGMASK cfg
                            else tagset (mn st home) (seltags (mn st home)))
      \<and> isfloating (cl st' c) = (ms \<noteq> [] \<and> r_isfloating (last ms))
      \<and> mon (cl st' c) = home
      \<and> mn st' = mn st \<and> (\<forall>d. d \<noteq> c \<longrightarrow> cl st' d = cl st d)"
proof -
  define st0 where "st0 = upd_client st c (\<lambda>k. k\<lparr>isfloating := False, tags := 0\<rparr>)"
  define cls where "cls = client_class st c"
  define inst where "inst = client_instance st c"
  define st1 where "st1 = applyrules_loop cls inst c (rules cfg) st0"
  define ms where "ms = matching_rules cfg st c"
  have k0: "name (cl st0 c) = name (cl st c)" "tags (cl st0 c) = 0" "\<not> isfloating (cl st0 c)"
    "mon (cl st0 c) = mon (cl st c)" "mn st0 = mn st" "mons st0 = mons st"
    "\<forall>d. d \<noteq> c \<longrightarrow> cl st0 d = cl st d"
    "xclass st0 = xclass st" "win (cl st0 c) = win (cl st c)"
    by (simp_all add: st0_def upd_client_def)
  have rh: "rehome st0 = rehome st"
    by (simp add: rehome_def k0 fun_eq_iff)
  have ms0: "filter (rule_matches (name (cl st0 c)) cls inst) (rules cfg) = ms"
    by (simp add: ms_def matching_rules_def k0 cls_def inst_def)
  have loop: "mn st1 = mn st" "\<forall>d. d \<noteq> c \<longrightarrow> cl st1 d = cl st d"
    "tags (cl st1 c) = fold (\<lambda>r t. t OR r_tags r) ms 0"
    "isfloating (cl st1 c) = (ms \<noteq> [] \<and> r_isfloating (last ms))"
    "mon (cl st1 c) = fold (rehome st) ms (mon (cl st c))"
    using applyrules_loop_result [of cls inst c "rules cfg" st0]
    unfolding Let_def ms0 st1_def [symmetric] by (simp_all add: k0 rh)
  have res: "applyrules cfg st c = upd_client st1 c
           (\<lambda>k. k\<lparr>tags := (if tags k AND TAGMASK cfg \<noteq> 0 then tags k AND TAGMASK cfg
                            else tagset (mn st1 (mon k)) (seltags (mn st1 (mon k))))\<rparr>)"
    unfolding st1_def cls_def inst_def client_class_def client_instance_def st0_def
    by (simp add: applyrules_def Let_def upd_client_def)
  have mem: "\<forall>r. r \<in> set ms \<longleftrightarrow>
            r \<in> set (rules cfg)
            \<and> spec_rule_matches (name (cl st c)) (client_class st c) (client_instance st c) r"
    by (auto simp: ms_def matching_rules_def rule_matches_spec)
  have fin: "tags (cl (applyrules cfg st c) c) =
       (if fold (\<lambda>r t. t OR r_tags r) ms 0 AND TAGMASK cfg \<noteq> 0
        then fold (\<lambda>r t. t OR r_tags r) ms 0 AND TAGMASK cfg
        else tagset (mn st (fold (rehome st) ms (mon (cl st c))))
               (seltags (mn st (fold (rehome st) ms (mon (cl st c))))))"
    "isfloating (cl (applyrules cfg st c) c) = (ms \<noteq> [] \<and> r_isfloating (last ms))"
    "mon (cl (applyrules cfg st c) c) = fold (rehome st) ms (mon (cl st c))"
    "mn (applyrules cfg st c) = mn st"
    "\<forall>d. d \<noteq> c \<longrightarrow> cl (applyrules cfg st c) d = cl st d"
    unfolding res by (simp_all add: upd_client_def loop)
  show ?thesis
    unfolding Let_def ms_def [symmetric] using mem fin by simp
qed

text \<open>Witness: scenario 3 of the specification. The Gimp rule (tags 1 << 3, floating,
  monitor -1) gives client 1 tag mask 8, makes it float and leaves it on monitor 0; client
  2 without a class hint matches no rule and gets the selected tagset 1.\<close>

theorem applyrules_result_witness:
  "tags (cl (applyrules ex_cfg ex_state_gimp 1) 1) = 8
   \<and> isfloating (cl (applyrules ex_cfg ex_state_gimp 1) 1)
   \<and> mon (cl (applyrules ex_cfg ex_state_gimp 1) 1) = 0
   \<and> tags (cl (applyrules ex_cfg ex_state_gimp 2) 2) = 1
   \<and> \<not> isfloating (cl (applyrules ex_cfg ex_state_gimp 2) 2)"
proof -
  have ev: "tags (cl (applyrules ex_cfg ex_state_gimp 1) 1) = 8
   \<and> isfloating (cl (applyrules ex_cfg ex_state_gimp 1) 1)
   \<and> mon (cl (applyrules ex_cfg ex_state_gimp 1) 1) = 0
   \<and> tags (cl (applyrules ex_cfg ex_state_gimp 2) 2) = 1
   \<and> \<not> isfloating (cl (applyrules ex_cfg ex_state_gimp 2) 2)"
    by code_simp
  show ?thesis
    using applyrules_result [of ex_cfg ex_state_gimp 1] ev by simp
qed

section \<open>The tile arranger\<close>

lemma u32_of_nat_less: "j < 2 ^ 32 \<Longrightarrow> k < 2 ^ 32 \<Longrightarrow> (of_nat j :: u32) < of_nat k \<longleftrightarrow> j < k"
  by (simp add: word_of_nat_less_iff take_bit_nat_eq_self)

lemma u32_of_int_nat: "0 \<le> v \<Longrightarrow> (word_of_int v :: u32) = of_nat (nat v)"
  by (simp add: of_nat_nat)

lemma sint_u32: "int32 v \<Longrightarrow> sint (word_of_int v :: u32) = v"
  by (simp add: int32_def sint_sbintrunc' signed_take_bit_int_eq_self)

lemma frame_eq_tile_count: "frame_eq st st' \<Longrightarrow> tile_count st' cs = tile_count st cs"
  by (induction cs) (simp_all add: frame_eq_nottiled)

lemma tile_loop_clients:
  "map fst (fst (tile_loop cfg m n mwid i myo tyo cs st)) = filter (\<lambda>c. \<not> nottiled st c) cs"
proof (induction cs arbitrary: i myo tyo st)
  case Nil
  show ?case by simp
next
  case (Cons c cs)
  show ?case
  proof (cases "nottiled st c")
    case True
    then show ?thesis using Cons.IH by simp
  next
    case False
    obtain rx ry rw rh where r: "tile_rect (mn st m) (cl st c) n mwid i myo tyo = (rx, ry, rw, rh)"
      by (cases "tile_rect (mn st m) (cl st c) n mwid i myo tyo") auto
    define st1 where "st1 = resize cfg st c rx ry rw rh False"
    have f1: "frame_eq st st1"
      by (simp add: st1_def frame_eq_resize)
    have "filter (\<lambda>c. \<not> nottiled st1 c) cs = filter (\<lambda>c. \<not> nottiled st c) cs"
      by (simp add: frame_eq_nottiled [OF f1])
    then show ?thesis
      using False Cons.IH [where st = st1]
      by (simp add: r Let_def st1_def case_prod_beta)
  qed
qed

text \<open>With \<^verbatim>\<open>nmaster = 0\<close> every client goes to the stack column.\<close>

lemma tile_loop_stack_only:
  assumes "nmaster (mn st m) = 0"
  shows "\<forall>(c, rx, ry, rw, rh) \<in> set (fst (tile_loop cfg m n mwid i myo tyo cs st)).
           rx = sint (word_of_int (wx (mn st m)) + mwid)
           \<and> rw = sint (word_of_int (ww (mn st m)) - mwid - word_of_int (2 * bw (cl st c)))"
  using assms
proof (induction cs arbitrary: i myo tyo st)
  case Nil
  show ?case by simp
next
  case (Cons c cs)
  show ?case
  proof (cases "nottiled st c")
    case True
    then show ?thesis using Cons.IH [OF Cons.prems] by simp
  next
    case False
    obtain rx ry rw rh where r: "tile_rect (mn st m) (cl st c) n mwid i myo tyo = (rx, ry, rw, rh)"
      by (cases "tile_rect (mn st m) (cl st c) n mwid i myo tyo") auto
    have rxw: "rx = sint (word_of_int (wx (mn st m)) + mwid)"
      "rw = sint (word_of_int (ww (mn st m)) - mwid - word_of_int (2 * bw (cl st c)))"
      using r Cons.prems by (auto simp: tile_rect_def Let_def)
    define st1 where "st1 = resize cfg st c rx ry rw rh False"
    define myo1 where "myo1 = (if i < word_of_int (nmaster (mn st m))
                               then tile_advance st1 m c myo else myo)"
    define tyo1 where "tyo1 = (if i < word_of_int (nmaster (mn st m))
                               then tyo else tile_advance st1 m c tyo)"
    have step: "fst (tile_loop cfg m n mwid i myo tyo (c # cs) st) =
                  (c, rx, ry, rw, rh) # fst (tile_loop cfg m n mwid (i + 1) myo1 tyo1 cs st1)"
      unfolding myo1_def tyo1_def st1_def
      by (simp add: False r Let_def case_prod_beta)
    have f1: "frame_eq st st1"
      by (simp add: st1_def frame_eq_resize)
    have m1: "mn st1 = mn st" and b1: "bw (cl st1 d) = bw (cl st d)" for d
      by (simp_all add: frame_eq_fields [OF f1])
    have nm1: "nmaster (mn st1 m) = 0"
      using Cons.prems by (simp add: m1)
    have rest: "\<forall>(c, rx, ry, rw, rh) \<in> set (fst (tile_loop cfg m n mwid i' myo' tyo' cs st1)).
           rx = sint (word_of_int (wx (mn st m)) + mwid)
           \<and> rw = sint (word_of_int (ww (mn st m)) - mwid - word_of_int (2 * bw (cl st c)))"
      for i' myo' tyo'
      using Cons.IH [OF nm1, of i' myo' tyo'] by (simp add: m1 b1)
    show ?thesis
      unfolding step using rxw rest [of "i + 1" myo1 tyo1] by simp
  qed
qed

text \<open>While the clients still to place are no more than the masters left, every client goes
  to the master column.\<close>

lemma tile_loop_master_only:
  assumes "int (j + tile_count st cs) \<le> nmaster (mn st m)" "nmaster (mn st m) < 2 ^ 31"
  shows "\<forall>(c, rx, ry, rw, rh) \<in> set (fst (tile_loop cfg m n mwid (of_nat j) myo tyo cs st)).
           rx = wx (mn st m) \<and> rw = sint (mwid - word_of_int (2 * bw (cl st c)))"
  using assms
proof (induction cs arbitrary: j myo tyo st)
  case Nil
  show ?case by simp
next
  case (Cons c cs)
  show ?case
  proof (cases "nottiled st c")
    case True
    then show ?thesis using Cons.IH [of j st] Cons.prems by simp
  next
    case False
    have cnt: "int (Suc j + tile_count st cs) \<le> nmaster (mn st m)"
      using Cons.prems(1) False by simp
    have jn: "j < nat (nmaster (mn st m))" "0 \<le> nmaster (mn st m)"
      using cnt by linarith+
    have "nmaster (mn st m) < 4294967296"
      using Cons.prems(2) by simp
    then have n32: "nat (nmaster (mn st m)) < 4294967296"
      by linarith
    then have j32: "j < 4294967296"
      using jn(1) by linarith
    have jn32: "nat (nmaster (mn st m)) < 2 ^ 32" "j < 2 ^ 32"
      using n32 j32 by simp_all
    have master: "(of_nat j :: u32) < word_of_int (nmaster (mn st m))"
      unfolding u32_of_int_nat [OF jn(2)] u32_of_nat_less [OF jn32(2) jn32(1)] by (rule jn(1))
    obtain rx ry rw rh
      where r: "tile_rect (mn st m) (cl st c) n mwid (of_nat j) myo tyo = (rx, ry, rw, rh)"
      by (cases "tile_rect (mn st m) (cl st c) n mwid (of_nat j) myo tyo") auto
    have rxw: "rx = wx (mn st m)" "rw = sint (mwid - word_of_int (2 * bw (cl st c)))"
      using r master by (auto simp: tile_rect_def Let_def)
    define st1 where "st1 = resize cfg st c rx ry rw rh False"
    define myo1 where "myo1 = tile_advance st1 m c myo"
    have step: "fst (tile_loop cfg m n mwid (of_nat j) myo tyo (c # cs) st) =
                  (c, rx, ry, rw, rh) # fst (tile_loop cfg m n mwid (of_nat (Suc j)) myo1 tyo cs st1)"
      unfolding myo1_def st1_def
      using master by (simp add: False r Let_def case_prod_beta add.commute)
    have f1: "frame_eq st st1"
      by (simp add: st1_def frame_eq_resize)
    have m1: "mn st1 = mn st" and b1: "bw (cl st1 d) = bw (cl st d)" for d
      by (simp_all add: frame_eq_fields [OF f1])
    have cnt1: "int (Suc j + tile_count st1 cs) \<le> nmaster (mn st1 m)"
      using cnt by (simp add: m1 frame_eq_tile_count [OF f1])
    have nm1: "nmaster (mn st1 m) < 2 ^ 31"
      using Cons.prems(2) by (simp add: m1)
    have rest: "\<forall>(c, rx, ry, rw, rh) \<in> set (fst (tile_loop cfg m n mwid (of_nat (Suc j)) myo' tyo' cs st1)).
           rx = wx (mn st m) \<and> rw = sint (mwid - word_of_int (2 * bw (cl st c)))"
      for myo' tyo'
      using Cons.IH [OF cnt1 nm1, of myo' tyo'] by (simp add: m1 b1)
    show ?thesis
      unfolding step using rxw rest [of myo1 tyo] by simp
  qed
qed


lemma sint_u32_diff: "int32 (a - b) \<Longrightarrow> sint ((word_of_int a :: u32) - word_of_int b) = a - b"
  using sint_u32 [of "a - b"] by simp

lemma sint_u32_diff2: "int32 (a - 2 * b) \<Longrightarrow> sint ((word_of_int a :: u32) - 2 * word_of_int b) = a - 2 * b"
  using sint_u32_diff [of a "2 * b"] by simp

lemma calls_mono:
  assumes "\<forall>(c, rx, ry, rw, rh) \<in> set xs. P c rx rw"
    and "\<And>c rx rw. c \<in> set (map fst xs) \<Longrightarrow> P c rx rw \<Longrightarrow> Q c rx rw"
  shows "\<forall>(c :: cref, rx :: int, ry :: int, rw :: int, rh :: int) \<in> set xs. Q c rx rw"
  using assms by force

lemma updatesizehints_other: "d \<noteq> c \<Longrightarrow> cl (updatesizehints cfg st c) d = cl st d"
  by (simp add: updatesizehints_def upd_client_def Let_def case_prod_beta)

lemma applysizehints_other:
  "d \<noteq> c \<Longrightarrow> cl (snd (applysizehints cfg st c px py pw ph i)) d = cl st d"
  by (simp add: applysizehints_def Let_def updatesizehints_other case_prod_beta)

lemma resizeclient_other: "d \<noteq> c \<Longrightarrow> cl (resizeclient st c px py pw ph) d = cl st d"
  by (simp add: resizeclient_def configure_def xsend_def upd_client_def Let_def)

lemma resize_other:
  assumes "d \<noteq> c"
  shows "cl (resize cfg st c px py pw ph i) d = cl st d"
proof -
  obtain r st1 where a: "applysizehints cfg st c px py pw ph i = (r, st1)"
    by (cases "applysizehints cfg st c px py pw ph i")
  have "cl st1 d = cl st d"
    using applysizehints_other [OF assms, of cfg st px py pw ph i] by (simp add: a)
  then show ?thesis
    by (simp add: resize_def a resizeclient_other [OF assms] split: prod.splits)
qed

lemma resize_nohints_geom:
  assumes "\<not> hints_apply cfg st c"
  shows "cx (cl (resize cfg st c px py pw ph i) c) =
           clamp_axis i (sw st) (wx (mn st (mon (cl st c)))) (ww (mn st (mon (cl st c))))
             (WIDTH (cl st c)) (bw (cl st c)) px (max 1 pw)"
    and "cw (cl (resize cfg st c px py pw ph i) c) = max (max 1 pw) (bh st)"
  unfolding resize_def applysizehints_nohints [OF assms] Let_def
  by (simp_all add: resizeclient_def configure_def xsend_def upd_client_def Let_def)

lemma clamp_axis_origin:
  "0 < len \<Longrightarrow> 0 < l + 2 * b \<Longrightarrow> clamp_axis False slen org len outer b org l = org"
  by (simp add: clamp_axis_def Let_def)


text \<open>The placing loop touches only the clients it calls \<^verbatim>\<open>resize\<close> for.\<close>

lemma tile_loop_untouched:
  "d \<notin> set (map fst (fst (tile_loop cfg m n mwid i myo tyo cs st))) \<Longrightarrow>
   cl (snd (tile_loop cfg m n mwid i myo tyo cs st)) d = cl st d"
proof (induction cs arbitrary: i myo tyo st)
  case Nil
  show ?case by simp
next
  case (Cons c cs)
  show ?case
  proof (cases "nottiled st c")
    case True
    then show ?thesis using Cons.IH Cons.prems by simp
  next
    case False
    obtain rx ry rw rh where r: "tile_rect (mn st m) (cl st c) n mwid i myo tyo = (rx, ry, rw, rh)"
      by (cases "tile_rect (mn st m) (cl st c) n mwid i myo tyo") auto
    define st1 where "st1 = resize cfg st c rx ry rw rh False"
    define myo1 where "myo1 = (if i < word_of_int (nmaster (mn st m))
                               then tile_advance st1 m c myo else myo)"
    define tyo1 where "tyo1 = (if i < word_of_int (nmaster (mn st m))
                               then tyo else tile_advance st1 m c tyo)"
    have step: "tile_loop cfg m n mwid i myo tyo (c # cs) st =
                  ((c, rx, ry, rw, rh) # fst (tile_loop cfg m n mwid (i + 1) myo1 tyo1 cs st1),
                   snd (tile_loop cfg m n mwid (i + 1) myo1 tyo1 cs st1))"
      unfolding myo1_def tyo1_def st1_def
      by (simp add: False r Let_def case_prod_beta)
    have dc: "d \<noteq> c" and dn: "d \<notin> set (map fst (fst (tile_loop cfg m n mwid (i + 1) myo1 tyo1 cs st1)))"
      using Cons.prems unfolding step by simp_all
    have "cl (snd (tile_loop cfg m n mwid (i + 1) myo1 tyo1 cs st1)) d = cl st1 d"
      by (rule Cons.IH [OF dn])
    also have "cl st1 d = cl st d"
      unfolding st1_def by (rule resize_other [OF dc])
    finally show ?thesis
      unfolding step by simp
  qed
qed

text \<open>When no size hints are applied, a client for which \<^verbatim>\<open>resize\<close> was called with the left
  edge and the inner width of the working area has them stored when the loop ends.\<close>

lemma tile_loop_final:
  assumes nh: "\<not> resizehints cfg" "lt_arrange (lt (mn st m) (sellt (mn st m))) \<noteq> None"
    and pos: "0 < ww (mn st m)"
    and cs: "\<forall>c \<in> set cs. \<not> nottiled st c \<longrightarrow>
               mon (cl st c) = m \<and> 1 \<le> ww (mn st m) - 2 * bw (cl st c)
               \<and> bh st \<le> ww (mn st m) - 2 * bw (cl st c)"
    and calls: "\<forall>(c, rx, ry, rw, rh) \<in> set (fst (tile_loop cfg m n mwid i myo tyo cs st)).
               rx = wx (mn st m) \<and> rw = ww (mn st m) - 2 * bw (cl st c)"
  shows "\<forall>c \<in> set (map fst (fst (tile_loop cfg m n mwid i myo tyo cs st))).
           cx (cl (snd (tile_loop cfg m n mwid i myo tyo cs st)) c) = wx (mn st m)
           \<and> cw (cl (snd (tile_loop cfg m n mwid i myo tyo cs st)) c)
               = ww (mn st m) - 2 * bw (cl st c)"
  using assms
proof (induction cs arbitrary: i myo tyo st)
  case Nil
  show ?case by simp
next
  case (Cons c cs)
  show ?case
  proof (cases "nottiled st c")
    case True
    then show ?thesis
      using Cons.IH [OF Cons.prems(1,2,3), of i myo tyo] Cons.prems(4,5) by simp
  next
    case False
    obtain rx ry rw rh where r: "tile_rect (mn st m) (cl st c) n mwid i myo tyo = (rx, ry, rw, rh)"
      by (cases "tile_rect (mn st m) (cl st c) n mwid i myo tyo") auto
    define st1 where "st1 = resize cfg st c rx ry rw rh False"
    define myo1 where "myo1 = (if i < word_of_int (nmaster (mn st m))
                               then tile_advance st1 m c myo else myo)"
    define tyo1 where "tyo1 = (if i < word_of_int (nmaster (mn st m))
                               then tyo else tile_advance st1 m c tyo)"
    define rs where "rs = fst (tile_loop cfg m n mwid (i + 1) myo1 tyo1 cs st1)"
    define st2 where "st2 = snd (tile_loop cfg m n mwid (i + 1) myo1 tyo1 cs st1)"
    have step: "tile_loop cfg m n mwid i myo tyo (c # cs) st = ((c, rx, ry, rw, rh) # rs, st2)"
      unfolding rs_def st2_def myo1_def tyo1_def st1_def
      by (simp add: False r Let_def case_prod_beta)
    have f1: "frame_eq st st1"
      by (simp add: st1_def frame_eq_resize)
    have m1: "mn st1 = mn st" and b1: "bw (cl st1 d) = bw (cl st d)"
      and o1: "mon (cl st1 d) = mon (cl st d)" and h1: "bh st1 = bh st"
      and t1: "nottiled st1 d = nottiled st d" for d
      by (simp_all add: frame_eq_fields [OF f1] frame_eq_nottiled [OF f1])
    have head: "rx = wx (mn st m)" "rw = ww (mn st m) - 2 * bw (cl st c)"
      using Cons.prems(5) unfolding step by simp_all
    have side: "mon (cl st c) = m" "1 \<le> ww (mn st m) - 2 * bw (cl st c)"
      "bh st \<le> ww (mn st m) - 2 * bw (cl st c)"
      using Cons.prems(4) False by simp_all
    have nha: "\<not> hints_apply cfg st c"
      using False Cons.prems(1,2) side(1) by (simp add: hints_apply_def nottiled_def)
    have g1: "cx (cl st1 c) = wx (mn st m)" "cw (cl st1 c) = ww (mn st m) - 2 * bw (cl st c)"
      unfolding st1_def resize_nohints_geom [OF nha] head side(1)
      using side(2,3) Cons.prems(3) by (simp_all add: clamp_axis_origin)
    have rest: "\<forall>d \<in> set (map fst rs).
           cx (cl st2 d) = wx (mn st m) \<and> cw (cl st2 d) = ww (mn st m) - 2 * bw (cl st d)"
      using Cons.IH [where st = st1 and i = "i + 1" and myo = myo1 and tyo = tyo1]
        Cons.prems(1,2,3,4) Cons.prems(5) [unfolded step]
      by (simp add: m1 b1 o1 h1 t1 rs_def st2_def)
    have keep: "cl st2 c = cl st1 c" if "c \<notin> set (map fst rs)"
      unfolding st2_def by (rule tile_loop_untouched) (use that in \<open>simp add: rs_def\<close>)
    have "cx (cl st2 c) = wx (mn st m) \<and> cw (cl st2 c) = ww (mn st m) - 2 * bw (cl st c)"
    proof (cases "c \<in> set (map fst rs)")
      case True
      then show ?thesis using rest by blast
    next
      case False
      then show ?thesis by (simp add: keep g1)
    qed
    then show ?thesis
      unfolding step using rest by simp
  qed
qed

text \<open>
  Claim C5. Let \<^verbatim>\<open>tile\<close> run on a monitor with \<open>k > 0\<close> visible non-floating clients, within
  the ranges of \<open>tile_in_range\<close>. It calls \<^verbatim>\<open>resize\<close> once for each of these clients, in the
  order of the client list. If \<^verbatim>\<open>nmaster\<close> is 0 the master width \<^verbatim>\<open>mw\<close> is 0, and every client
  is placed at \<open>x = wx\<close> with width \<open>ww - 2 * bw\<close>; if \<open>k \<le> nmaster\<close> then \<^verbatim>\<open>mw\<close> is \<^verbatim>\<open>ww\<close>, and
  again every client is placed at \<open>x = wx\<close> with width \<open>ww - 2 * bw\<close>; otherwise \<^verbatim>\<open>mw\<close> is the
  product \<^verbatim>\<open>ww * mfact\<close>, converted to \<^verbatim>\<open>unsigned int\<close>. The place of a client is the rectangle
  that \<^verbatim>\<open>tile\<close> hands to \<^verbatim>\<open>resize\<close>; when no size hints are applied (\<open>tile_unhinted\<close>), the
  clients of a single column also end with \<open>x = wx\<close> and width \<open>ww - 2 * bw\<close> stored.
\<close>

theorem tile_master_width_and_columns:
  assumes rng: "tile_in_range st m"
  shows "let M = mn st m; k = tile_count st (clients M); mwid = tile_mw cfg M (of_nat k)
         in map fst (tile_calls cfg st m) = filter (\<lambda>c. \<not> nottiled st c) (clients M)
            \<and> (nmaster M = 0 \<longrightarrow>
                 mwid = 0
                 \<and> (\<forall>(c, rx, ry, rw, rh) \<in> set (tile_calls cfg st m).
                       rx = wx M \<and> rw = ww M - 2 * bw (cl st c)))
            \<and> (int k \<le> nmaster M \<longrightarrow>
                 mwid = word_of_int (ww M)
                 \<and> (\<forall>(c, rx, ry, rw, rh) \<in> set (tile_calls cfg st m).
                       rx = wx M \<and> rw = ww M - 2 * bw (cl st c)))
            \<and> (nmaster M \<noteq> 0 \<and> nmaster M < int k \<longrightarrow>
                 mwid = f_mul_uint cfg (ww M) (mfact M))
            \<and> (tile_unhinted cfg st m \<and> (nmaster M = 0 \<or> int k \<le> nmaster M) \<longrightarrow>
                 (\<forall>c \<in> set (clients M). \<not> nottiled st c \<longrightarrow>
                    cx (cl (tile cfg st m) c) = wx M
                    \<and> cw (cl (tile cfg st m) c) = ww M - 2 * bw (cl st c)))"
proof -
  define M where "M = mn st m"
  define k where "k = tile_count st (clients M)"
  define n where "n = (of_nat k :: u32)"
  define mwid where "mwid = tile_mw cfg M n"
  have k31: "0 < k" "k < 2147483648"
    using rng by (simp_all add: tile_in_range_def Let_def k_def M_def)
  then have k32: "k < 2 ^ 32" "(0::nat) < 2 ^ 32"
    by simp_all
  have npos: "0 < n"
    using u32_of_nat_less [OF k32(2) k32(1)] k31(1) by (simp add: n_def)
  then have nz: "n \<noteq> 0"
    by auto
  have nm0: "0 \<le> nmaster M" "nmaster M < 2147483648"
    using rng by (simp_all add: tile_in_range_def Let_def M_def)
  then have nm32: "nat (nmaster M) < 2 ^ 32"
    by simp
  have rx: "int32 (wx M)"
    using rng by (simp add: tile_in_range_def Let_def M_def)
  have rw: "int32 (ww M - 2 * bw (cl st c))" if "c \<in> set (clients M)" for c
    using rng that by (simp add: tile_in_range_def Let_def M_def)
  have cmp: "n > word_of_int (nmaster M) \<longleftrightarrow> nmaster M < int k"
    unfolding n_def u32_of_int_nat [OF nm0(1)] u32_of_nat_less [OF nm32 k32(1)]
    using nm0(1) by linarith
  have run: "tile_run cfg st m = tile_loop cfg m n mwid 0 0 0 (clients M) st"
    using nz by (simp add: tile_run_def Let_def M_def k_def n_def mwid_def)
  have calls: "tile_calls cfg st m = fst (tile_loop cfg m n mwid 0 0 0 (clients M) st)"
    by (simp add: tile_calls_def run)
  have who: "map fst (tile_calls cfg st m) = filter (\<lambda>c. \<not> nottiled st c) (clients M)"
    unfolding calls by (rule tile_loop_clients)
  have mem: "c \<in> set (clients M)" if "c \<in> set (map fst (tile_calls cfg st m))" for c
    using that unfolding who by simp
  have a: "mwid = 0 \<and> (\<forall>(c, rx, ry, rw, rh) \<in> set (tile_calls cfg st m).
                       rx = wx M \<and> rw = ww M - 2 * bw (cl st c))" if z: "nmaster M = 0"
  proof
    show mw0: "mwid = 0"
      using z npos by (simp add: mwid_def tile_mw_def)
    have "\<forall>(c, rx, ry, rw, rh) \<in> set (fst (tile_loop cfg m n mwid 0 0 0 (clients M) st)).
           rx = sint (word_of_int (wx (mn st m)) + mwid)
           \<and> rw = sint (word_of_int (ww (mn st m)) - mwid - word_of_int (2 * bw (cl st c)))"
      by (rule tile_loop_stack_only) (use z in \<open>simp add: M_def\<close>)
    then have "\<forall>(c, rx, ry, rw, rh) \<in> set (tile_calls cfg st m).
           rx = sint ((word_of_int (wx M) :: u32) + 0)
           \<and> rw = sint ((word_of_int (ww M) :: u32) - 0 - word_of_int (2 * bw (cl st c)))"
      unfolding calls mw0 M_def .
    then show "\<forall>(c, rx, ry, rw, rh) \<in> set (tile_calls cfg st m).
                       rx = wx M \<and> rw = ww M - 2 * bw (cl st c)"
    proof (rule calls_mono)
      fix c rx rw
      assume "c \<in> set (map fst (tile_calls cfg st m))"
        and "rx = sint ((word_of_int (wx M) :: u32) + 0)
        \<and> rw = sint ((word_of_int (ww M) :: u32) - 0 - word_of_int (2 * bw (cl st c)))"
      then show "rx = wx M \<and> rw = ww M - 2 * bw (cl st c)"
        using rx rw [OF mem] by (simp add: sint_u32 sint_u32_diff2)
    qed
  qed
  have b: "mwid = word_of_int (ww M) \<and> (\<forall>(c, rx, ry, rw, rh) \<in> set (tile_calls cfg st m).
                       rx = wx M \<and> rw = ww M - 2 * bw (cl st c))" if le: "int k \<le> nmaster M"
  proof
    show mww: "mwid = word_of_int (ww M)"
      using le cmp by (simp add: mwid_def tile_mw_def)
    have "\<forall>(c, rx, ry, rw, rh) \<in> set (fst (tile_loop cfg m n mwid (of_nat 0) 0 0 (clients M) st)).
           rx = wx (mn st m) \<and> rw = sint (mwid - word_of_int (2 * bw (cl st c)))"
      by (rule tile_loop_master_only) (use le nm0 in \<open>simp_all add: M_def k_def\<close>)
    then have "\<forall>(c, rx, ry, rw, rh) \<in> set (fst (tile_loop cfg m n mwid 0 0 0 (clients M) st)).
           rx = wx (mn st m) \<and> rw = sint (mwid - word_of_int (2 * bw (cl st c)))"
      by (simp only: semiring_1_class.of_nat_0)
    then have "\<forall>(c, rx, ry, rw, rh) \<in> set (tile_calls cfg st m).
           rx = wx M \<and> rw = sint ((word_of_int (ww M) :: u32) - word_of_int (2 * bw (cl st c)))"
      unfolding calls mww M_def .
    then show "\<forall>(c, rx, ry, rw, rh) \<in> set (tile_calls cfg st m).
                       rx = wx M \<and> rw = ww M - 2 * bw (cl st c)"
    proof (rule calls_mono)
      fix c rx rw
      assume "c \<in> set (map fst (tile_calls cfg st m))"
        and "rx = wx M
        \<and> rw = sint ((word_of_int (ww M) :: u32) - word_of_int (2 * bw (cl st c)))"
      then show "rx = wx M \<and> rw = ww M - 2 * bw (cl st c)"
        using rw [OF mem] by (simp add: sint_u32_diff2)
    qed
  qed
  have c: "mwid = f_mul_uint cfg (ww M) (mfact M)" if "nmaster M \<noteq> 0 \<and> nmaster M < int k"
    using that cmp by (simp add: mwid_def tile_mw_def)
  have d: "\<forall>c \<in> set (clients M). \<not> nottiled st c \<longrightarrow>
              cx (cl (tile cfg st m) c) = wx M
              \<and> cw (cl (tile cfg st m) c) = ww M - 2 * bw (cl st c)"
    if u: "tile_unhinted cfg st m" and col: "nmaster M = 0 \<or> int k \<le> nmaster M"
  proof -
    have fin: "tile cfg st m = snd (tile_loop cfg m n mwid 0 0 0 (clients M) st)"
      by (simp add: tile_def run)
    have all: "\<forall>(c, rx, ry, rw, rh) \<in> set (fst (tile_loop cfg m n mwid 0 0 0 (clients M) st)).
                 rx = wx (mn st m) \<and> rw = ww (mn st m) - 2 * bw (cl st c)"
      using col a b unfolding calls M_def by blast
    have nh: "\<not> resizehints cfg" "lt_arrange (lt (mn st m) (sellt (mn st m))) \<noteq> None"
      "0 < ww (mn st m)"
      using u by (simp_all add: tile_unhinted_def Let_def)
    have side: "\<forall>c \<in> set (clients M). \<not> nottiled st c \<longrightarrow>
               mon (cl st c) = m \<and> 1 \<le> ww (mn st m) - 2 * bw (cl st c)
               \<and> bh st \<le> ww (mn st m) - 2 * bw (cl st c)"
      using u by (simp add: tile_unhinted_def Let_def M_def)
    have "\<forall>c \<in> set (map fst (fst (tile_loop cfg m n mwid 0 0 0 (clients M) st))).
           cx (cl (snd (tile_loop cfg m n mwid 0 0 0 (clients M) st)) c) = wx (mn st m)
           \<and> cw (cl (snd (tile_loop cfg m n mwid 0 0 0 (clients M) st)) c)
               = ww (mn st m) - 2 * bw (cl st c)"
      by (rule tile_loop_final [OF nh side all])
    then show ?thesis
      unfolding fin tile_loop_clients M_def by simp
  qed
  show ?thesis
    unfolding Let_def M_def [symmetric] k_def [symmetric] n_def [symmetric] mwid_def [symmetric]
  proof (intro conjI impI)
    show "map fst (tile_calls cfg st m) = filter (\<lambda>c. \<not> nottiled st c) (clients M)"
      by (rule who)
    show "mwid = 0" if "nmaster M = 0"
      using a [OF that] by (rule conjunct1)
    show "\<forall>(c, rx, ry, rw, rh) \<in> set (tile_calls cfg st m).
            rx = wx M \<and> rw = ww M - 2 * bw (cl st c)" if "nmaster M = 0"
      using a [OF that] by (rule conjunct2)
    show "mwid = word_of_int (ww M)" if "int k \<le> nmaster M"
      using b [OF that] by (rule conjunct1)
    show "\<forall>(c, rx, ry, rw, rh) \<in> set (tile_calls cfg st m).
            rx = wx M \<and> rw = ww M - 2 * bw (cl st c)" if "int k \<le> nmaster M"
      using b [OF that] by (rule conjunct2)
    show "mwid = f_mul_uint cfg (ww M) (mfact M)" if "nmaster M \<noteq> 0 \<and> nmaster M < int k"
      using that by (rule c)
    show "\<forall>c \<in> set (clients M). \<not> nottiled st c \<longrightarrow>
            cx (cl (tile cfg st m) c) = wx M
            \<and> cw (cl (tile cfg st m) c) = ww M - 2 * bw (cl st c)"
      if "tile_unhinted cfg st m \<and> (nmaster M = 0 \<or> int k \<le> nmaster M)"
      using d that by blast
  qed
qed

text \<open>The three cases on the two tiled clients of \<open>ex_state_two\<close> (a 1920 wide working area,
  borders of 2, \<^verbatim>\<open>mfact\<close> 0.55): with \<^verbatim>\<open>nmaster\<close> 1 the master width is 1056, with \<^verbatim>\<open>nmaster\<close> 0 it
  is 0 and with \<^verbatim>\<open>nmaster\<close> 2 it is 1920, both clients then 1916 wide at \<open>x = 0\<close>; no size hints
  are applied, and the two clients end with that left edge and width.\<close>

theorem tile_master_width_and_columns_witness:
  "tile_in_range ex_state_two 0
   \<and> tile_mw ex_cfg (mn ex_state_two 0) 2 = 1056
   \<and> tile_calls ex_cfg ex_state_two 0 = [(1, 0, 16, 1052, 1060), (2, 1056, 16, 860, 1060)]
   \<and> tile_in_range ex_state_two_stack 0
   \<and> tile_mw ex_cfg (mn ex_state_two_stack 0) 2 = 0
   \<and> tile_calls ex_cfg ex_state_two_stack 0 = [(1, 0, 16, 1916, 528), (2, 0, 548, 1916, 528)]
   \<and> tile_unhinted ex_cfg ex_state_two_stack 0
   \<and> (let st' = tile ex_cfg ex_state_two_stack 0
      in (cx (cl st' 1), cw (cl st' 1), cx (cl st' 2), cw (cl st' 2)) = (0, 1916, 0, 1916))
   \<and> tile_in_range ex_state_two_masters 0
   \<and> tile_mw ex_cfg (mn ex_state_two_masters 0) 2 = 1920
   \<and> tile_calls ex_cfg ex_state_two_masters 0 = [(1, 0, 16, 1916, 528), (2, 0, 548, 1916, 528)]"
proof -
  have ev: "tile_calls ex_cfg ex_state_two 0 = [(1, 0, 16, 1052, 1060), (2, 1056, 16, 860, 1060)]"
    "tile_calls ex_cfg ex_state_two_stack 0 = [(1, 0, 16, 1916, 528), (2, 0, 548, 1916, 528)]"
    "tile_calls ex_cfg ex_state_two_masters 0 = [(1, 0, 16, 1916, 528), (2, 0, 548, 1916, 528)]"
    by code_simp+
  have u: "tile_unhinted ex_cfg ex_state_two_stack 0"
    "(let st' = tile ex_cfg ex_state_two_stack 0
      in (cx (cl st' 1), cw (cl st' 1), cx (cl st' 2), cw (cl st' 2)) = (0, 1916, 0, 1916))"
    by code_simp+
  have k: "tile_count ex_state_two (clients (mn ex_state_two 0)) = 2"
    "tile_count ex_state_two_stack (clients (mn ex_state_two_stack 0)) = 2"
    "tile_count ex_state_two_masters (clients (mn ex_state_two_masters 0)) = 2"
    by code_simp+
  have v: "nmaster (mn ex_state_two 0) = 1" "nmaster (mn ex_state_two_stack 0) = 0"
    "nmaster (mn ex_state_two_masters 0) = 2"
    "f_mul_uint ex_cfg (ww (mn ex_state_two 0)) (mfact (mn ex_state_two 0)) = 1056"
    "ww (mn ex_state_two_masters 0) = 1920"
    by code_simp+
  have "wx (mn ex_state_two 0) = 0"
    "list_all (\<lambda>c. ww (mn ex_state_two 0) - 2 * bw (cl ex_state_two c) = 1916) (clients (mn ex_state_two 0))"
    by code_simp+
  then have r1: "tile_in_range ex_state_two 0"
    by (simp add: tile_in_range_def Let_def int32_def list_all_iff k v)
  have "wx (mn ex_state_two_stack 0) = 0"
    "list_all (\<lambda>c. ww (mn ex_state_two_stack 0) - 2 * bw (cl ex_state_two_stack c) = 1916) (clients (mn ex_state_two_stack 0))"
    by code_simp+
  then have r2: "tile_in_range ex_state_two_stack 0"
    by (simp add: tile_in_range_def Let_def int32_def list_all_iff k v)
  have "wx (mn ex_state_two_masters 0) = 0"
    "list_all (\<lambda>c. ww (mn ex_state_two_masters 0) - 2 * bw (cl ex_state_two_masters c) = 1916) (clients (mn ex_state_two_masters 0))"
    by code_simp+
  then have r3: "tile_in_range ex_state_two_masters 0"
    by (simp add: tile_in_range_def Let_def int32_def list_all_iff k v)
  show ?thesis
    using tile_master_width_and_columns [OF r1, of ex_cfg]
      tile_master_width_and_columns [OF r2, of ex_cfg]
      tile_master_width_and_columns [OF r3, of ex_cfg] u(2)
    unfolding Let_def k v
    by (simp add: r1 r2 r3 ev u(1))
qed

end
